theory Spec2Isabelle
  imports Main "HOL-Library.AList" "HOL-Library.Word"
begin

section \<open>Data model\<close>

text \<open>
  The presence server keeps one process-wide object \<open>onlineUsersByRoom\<close>, a plain
  JavaScript object used as a dictionary from room id to an array of members. Four
  Socket.io handlers (\<open>newUser\<close>, \<open>disconnect\<close>, \<open>chat:message\<close>, \<open>leave-call\<close>) read
  and write it. Each handler is modelled as a function from the registry (and the
  handler's inputs) to the new registry, the list of effects it performed, in order,
  and the way it ended: it returned, or an exception left it (for the \<open>async\<close> handlers,
  the promise was rejected). The effects are the calls to the backend client, to
  \<open>socket.join\<close>, \<open>socket.leave\<close>, \<open>io.to(room).emit\<close> and \<open>console.log\<close>; what the
  transport and the backend do with them is not part of the model, and the answer of the
  backend to a request is a parameter of the handlers.

  A handler runs to its end before the next event is handled: events that Node would
  dispatch while a handler waits for the backend are not interleaved. The second global,
  \<open>onlineUsers\<close>, is never read or written by a handler and is left out.

  Room ids, user ids and socket ids are only compared, tested for emptiness and used as
  property keys, so they are \<open>string\<close>. The text of a chat message is the one string
  whose characters the program inspects (\<open>String.prototype.trim\<close>), so it is kept as
  its sequence of UTF-16 code units.
\<close>

type_synonym utf16 = "16 word list"

text \<open>The elements of the arrays in \<open>onlineUsersByRoom\<close>; \<open>name\<close> and \<open>photo\<close> are
  whatever the join payload carried, possibly \<open>undefined\<close>.\<close>

record member =
  socketId :: string
  userId :: string
  name :: "string option"
  photo :: "string option"

text \<open>The payload of \<open>newUser\<close>, destructured as \<open>{ userId, name, photo, roomId }\<close>;
  a missing field is \<open>None\<close>. An event that comes without a payload is \<open>None\<close> of
  \<open>userData option\<close>; the same holds for the payloads of the other events.\<close>

record userData =
  ud_userId :: "string option"
  ud_name :: "string option"
  ud_photo :: "string option"
  ud_roomId :: "string option"

text \<open>\<open>ChatMessagePayload\<close>. The handler guards \<open>payload?.message?.trim()\<close>, so the
  message may be missing.\<close>

record chatMessagePayload =
  cm_userId :: string
  cm_message :: "utf16 option"
  cm_timestamp :: "string option"

text \<open>The object built as \<open>outgoingMessage\<close>; \<open>None\<close> stands for \<open>null\<close>.\<close>

record outgoingMessage =
  om_userId :: string
  om_message :: utf16
  om_timestamp :: string
  om_name :: "string option"
  om_photo :: "string option"

text \<open>The JSON body of the two backend calls.\<close>

record participantBody =
  pb_meetingId :: string
  pb_userId :: string
  pb_name :: "string option"

record apiRequest =
  rq_method :: string
  rq_path :: string
  rq_body :: participantBody

text \<open>The payload of \<open>leave-call\<close>, destructured as \<open>{ roomId }\<close>.\<close>

record leaveCallPayload =
  lc_roomId :: "string option"

text \<open>What \<open>response.json()\<close> gives for the body of a response: the body is not JSON
  (the promise rejects), it is the JSON value \<open>null\<close>, or it is another JSON value, of
  which only a truthy \<open>message\<close> property matters (as the string \<open>new Error\<close> makes of
  it).\<close>

datatype jsonBody = NotJson | JsonNull | JsonValue "string option"

text \<open>What \<open>fetch\<close> can do in \<open>apiClient.request\<close>: reject (network failure), or resolve
  with a response that is \<open>ok\<close> or not and has a body.\<close>

datatype fetchOutcome = FetchRejected | FetchResponse bool jsonBody

datatype jsError = TypeError | Error string

datatype outcome = Returned | Threw jsError

datatype effect =
    ApiPost apiRequest
  | SocketJoin string string
  | SocketLeave string string
  | EmitUsersOnline string "member list"
  | EmitChatMessage string outgoingMessage
  | ConsoleLogRelayed outgoingMessage
  | ConsoleLogUser string

text \<open>The own properties of \<open>onlineUsersByRoom\<close>, in insertion order.\<close>

type_synonym registry = "(string \<times> member list) list"

type_synonym result = "registry \<times> effect list \<times> outcome"

datatype event =
    NewUser string "userData option"
  | Disconnect string
  | ChatMessage string "chatMessagePayload option"
  | LeaveCall string "leaveCallPayload option"

section \<open>Property access on the registry object\<close>

text \<open>\<open>onlineUsersByRoom\<close> is created as \<open>{}\<close>, so a property read that finds no own
  property continues in \<open>Object.prototype\<close>. These are its property names; each of them
  reads as a function or an object, which is truthy and has no \<open>findIndex\<close>, \<open>find\<close>
  or \<open>filter\<close>.\<close>

definition objectPrototypeKeys :: "string list" where
  "objectPrototypeKeys =
     [''constructor'', ''__defineGetter__'', ''__defineSetter__'', ''hasOwnProperty'',
      ''__lookupGetter__'', ''__lookupSetter__'', ''isPrototypeOf'',
      ''propertyIsEnumerable'', ''toString'', ''valueOf'', ''__proto__'',
      ''toLocaleString'']"

datatype property = Own "member list" | Inherited | Undefined

definition getProp :: "registry \<Rightarrow> string \<Rightarrow> property" where
  "getProp reg k =
     (case map_of reg k of
        Some users \<Rightarrow> Own users
      | None \<Rightarrow> if k \<in> set objectPrototypeKeys then Inherited else Undefined)"

text \<open>\<open>for (const roomId in onlineUsersByRoom)\<close> visits the own keys that are array
  indices (canonical decimal strings below \<open>2^32 - 1\<close>) in ascending numeric order, then
  the other keys in insertion order.\<close>

definition isDigit :: "char \<Rightarrow> bool" where
  "isDigit c \<longleftrightarrow> 48 \<le> (of_char c :: nat) \<and> (of_char c :: nat) \<le> 57"

definition decimalValue :: "string \<Rightarrow> nat" where
  "decimalValue k = foldl (\<lambda>n c. 10 * n + ((of_char c :: nat) - 48)) 0 k"

definition isArrayIndex :: "string \<Rightarrow> bool" where
  "isArrayIndex k \<longleftrightarrow>
     k \<noteq> [] \<and> list_all isDigit k \<and> (k = ''0'' \<or> hd k \<noteq> CHR ''0'') \<and>
     decimalValue k < 2 ^ 32 - 1"

definition forInKeys :: "registry \<Rightarrow> string list" where
  "forInKeys reg =
     (let ks = map fst reg
      in sort_key decimalValue (filter isArrayIndex ks) @ filter (\<lambda>k. \<not> isArrayIndex k) ks)"

section \<open>The backend client\<close>

text \<open>\<open>apiClient.request\<close>: the call throws when \<open>fetch\<close> rejects and when the response
  is not \<open>ok\<close>. In the second case \<open>err\<close> is the parsed body, or \<open>{}\<close> when the body is not
  JSON, and the handler runs \<open>throw new Error(err.message || "Request failed")\<close>; for the
  body \<open>null\<close> the read of \<open>err.message\<close> itself throws a \<open>TypeError\<close>. The parsed response
  that the call returns otherwise is used by no handler.\<close>

definition request :: "(apiRequest \<Rightarrow> fetchOutcome) \<Rightarrow> string \<Rightarrow> string \<Rightarrow> participantBody \<Rightarrow> jsError + unit" where
  "request fetch method path body =
     (case fetch \<lparr>rq_method = method, rq_path = path, rq_body = body\<rparr> of
        FetchRejected \<Rightarrow> Inl TypeError
      | FetchResponse ok err \<Rightarrow>
          if \<not> ok then
            (case err of
               NotJson \<Rightarrow> Inl (Error ''Request failed'')
             | JsonNull \<Rightarrow> Inl TypeError
             | JsonValue msg \<Rightarrow>
                 Inl (Error (case msg of
                               None \<Rightarrow> ''Request failed''
                             | Some m \<Rightarrow> if m = [] then ''Request failed'' else m)))
          else Inr ())"

definition post :: "(apiRequest \<Rightarrow> fetchOutcome) \<Rightarrow> string \<Rightarrow> participantBody \<Rightarrow> jsError + unit" where
  "post fetch path body = request fetch ''POST'' path body"

definition addParticipant :: "string \<Rightarrow> string \<Rightarrow> string option \<Rightarrow> apiRequest" where
  "addParticipant rid uid nm =
     \<lparr>rq_method = ''POST'', rq_path = ''/api/v1/meetings/add-participant'',
      rq_body = \<lparr>pb_meetingId = rid, pb_userId = uid, pb_name = nm\<rparr>\<rparr>"

definition removeParticipant :: "string \<Rightarrow> string \<Rightarrow> string option \<Rightarrow> apiRequest" where
  "removeParticipant rid uid nm =
     \<lparr>rq_method = ''POST'', rq_path = ''/api/v1/meetings/remove-participant'',
      rq_body = \<lparr>pb_meetingId = rid, pb_userId = uid, pb_name = nm\<rparr>\<rparr>"

section \<open>The handlers\<close>

subsection \<open>newUser\<close>

fun findIndex :: "('a \<Rightarrow> bool) \<Rightarrow> 'a list \<Rightarrow> nat option" where
  "findIndex P [] = None"
| "findIndex P (x # xs) = (if P x then Some 0 else map_option Suc (findIndex P xs))"

text \<open>The handler starts with \<open>const { userId, name, photo, roomId } = userData\<close>, which
  throws a \<open>TypeError\<close> when the event came without a payload (\<open>userData\<close> is \<open>undefined\<close>
  or \<open>null\<close>), before the guard is reached.\<close>

text \<open>The end of the handler: \<open>socket.join(roomId)\<close>, then the broadcast of
  \<open>onlineUsersByRoom[roomId]\<close>, which at that point is the array the handler has just
  written.\<close>

definition joinAndEmit :: "string \<Rightarrow> string \<Rightarrow> member list \<Rightarrow> registry \<Rightarrow> effect list \<Rightarrow> result" where
  "joinAndEmit sid rid users reg effs =
     (reg, effs @ [SocketJoin sid rid, EmitUsersOnline rid users], Returned)"

definition newUser :: "(apiRequest \<Rightarrow> fetchOutcome) \<Rightarrow> string \<Rightarrow> userData option \<Rightarrow> registry \<Rightarrow> result" where
  "newUser fetch sid userData reg =
     (case userData of
        None \<Rightarrow> (reg, [], Threw TypeError)
      | Some ud \<Rightarrow>
          (case (ud_userId ud, ud_roomId ud) of
             (Some uid, Some rid) \<Rightarrow>
               if uid = [] \<or> rid = [] then (reg, [], Returned)
               else
                 (let reg1 = (if getProp reg rid = Undefined then AList.update rid [] reg else reg);
                      m = \<lparr>socketId = sid, userId = uid, name = ud_name ud, photo = ud_photo ud\<rparr>
                  in case getProp reg1 rid of
                       Own users \<Rightarrow>
                         (case findIndex (\<lambda>user. socketId user = sid) users of
                            Some existingUserIndex \<Rightarrow>
                              (let users1 = users[existingUserIndex := m]
                               in joinAndEmit sid rid users1 (AList.update rid users1 reg1) [])
                          | None \<Rightarrow>
                              if \<not> list_ex (\<lambda>user. userId user = uid) users then
                                (let users2 = users @ [m];
                                     reg2 = AList.update rid users2 reg1;
                                     call = addParticipant rid uid (ud_name ud)
                                 in case post fetch (rq_path call) (rq_body call) of
                                      Inl e \<Rightarrow> (reg2, [ApiPost call], Threw e)
                                    | Inr _ \<Rightarrow> joinAndEmit sid rid users2 reg2 [ApiPost call])
                              else
                                (let users3 = map (\<lambda>user. if userId user = uid then m else user) users
                                 in joinAndEmit sid rid users3 (AList.update rid users3 reg1) []))
                     | _ \<Rightarrow> (reg1, [], Threw TypeError))
           | _ \<Rightarrow> (reg, [], Returned)))"

subsection \<open>disconnect\<close>

text \<open>The loop over the rooms, one equation per round; \<open>beforeLength\<close> is the source's
  \<open>before\<close>. A failed backend call leaves the loop, and the handler, in the middle: the
  rooms after it are not visited.\<close>

fun disconnectRooms :: "(apiRequest \<Rightarrow> fetchOutcome) \<Rightarrow> string \<Rightarrow> string list \<Rightarrow> registry \<Rightarrow> effect list \<Rightarrow> result" where
  "disconnectRooms fetch sid [] reg effs = (reg, effs, Returned)"
| "disconnectRooms fetch sid (rid # rids) reg effs =
     (case getProp reg rid of
        Own users \<Rightarrow>
          (let userToRemove = find (\<lambda>u. socketId u = sid) users;
               beforeLength = length users;
               users' = filter (\<lambda>u. socketId u \<noteq> sid) users;
               reg' = AList.update rid users' reg
           in if beforeLength \<noteq> length users' then
                (case userToRemove of
                   Some u \<Rightarrow>
                     (let call = removeParticipant rid (userId u) (name u)
                      in case post fetch (rq_path call) (rq_body call) of
                           Inl e \<Rightarrow> (reg', effs @ [ApiPost call], Threw e)
                         | Inr _ \<Rightarrow>
                             disconnectRooms fetch sid rids reg'
                               (effs @ [ApiPost call, EmitUsersOnline rid users']))
                 | None \<Rightarrow>
                     disconnectRooms fetch sid rids reg' (effs @ [EmitUsersOnline rid users']))
              else disconnectRooms fetch sid rids reg' effs)
      | _ \<Rightarrow> (reg, effs, Threw TypeError))"

definition disconnect :: "(apiRequest \<Rightarrow> fetchOutcome) \<Rightarrow> string \<Rightarrow> registry \<Rightarrow> result" where
  "disconnect fetch sid reg = disconnectRooms fetch sid (forInKeys reg) reg []"

subsection \<open>chat:message\<close>

text \<open>The code units \<open>String.prototype.trim\<close> strips: the ECMAScript white space and
  line terminator code points, all of which are single UTF-16 code units.\<close>

definition isWhiteSpace :: "16 word \<Rightarrow> bool" where
  "isWhiteSpace c \<longleftrightarrow>
     c \<in> set [0x0009, 0x000A, 0x000B, 0x000C, 0x000D, 0x0020, 0x00A0, 0x1680,
              0x2000, 0x2001, 0x2002, 0x2003, 0x2004, 0x2005, 0x2006, 0x2007, 0x2008,
              0x2009, 0x200A, 0x2028, 0x2029, 0x202F, 0x205F, 0x3000, 0xFEFF]"

definition trim :: "utf16 \<Rightarrow> utf16" where
  "trim s = rev (dropWhile isWhiteSpace (rev (dropWhile isWhiteSpace s)))"

text \<open>The search loop: the first key, in \<open>for in\<close> order, whose array has an element
  with the socket's id gives \<open>sender\<close> and \<open>senderRoomId\<close>.\<close>

fun findSender :: "string \<Rightarrow> string list \<Rightarrow> registry \<Rightarrow> jsError + (member \<times> string) option" where
  "findSender sid [] reg = Inr None"
| "findSender sid (rid # rids) reg =
     (case getProp reg rid of
        Own users \<Rightarrow>
          (case find (\<lambda>u. socketId u = sid) users of
             Some found \<Rightarrow> Inr (Some (found, rid))
           | None \<Rightarrow> findSender sid rids reg)
      | _ \<Rightarrow> Inl TypeError)"

definition chatMessage :: "string \<Rightarrow> string \<Rightarrow> chatMessagePayload option \<Rightarrow> registry \<Rightarrow> result" where
  "chatMessage now sid payload reg =
     (case payload of
        None \<Rightarrow> (reg, [], Returned)
      | Some p \<Rightarrow>
          (case cm_message p of
             None \<Rightarrow> (reg, [], Returned)
           | Some text \<Rightarrow>
               (let trimmedMessage = trim text
                in if trimmedMessage = [] then (reg, [], Returned)
                   else
                     (case findSender sid (forInKeys reg) reg of
                        Inl e \<Rightarrow> (reg, [], Threw e)
                      | Inr found \<Rightarrow>
                          (let out = \<lparr>om_userId = cm_userId p,
                                      om_message = trimmedMessage,
                                      om_timestamp =
                                        (case cm_timestamp p of Some t \<Rightarrow> t | None \<Rightarrow> now),
                                      om_name = (case found of Some (u, _) \<Rightarrow> name u | None \<Rightarrow> None),
                                      om_photo = (case found of Some (u, _) \<Rightarrow> photo u | None \<Rightarrow> None)\<rparr>
                           in (reg,
                               (case found of
                                  Some (_, rid) \<Rightarrow>
                                    if rid \<noteq> [] then [EmitChatMessage rid out] else []
                                | None \<Rightarrow> []) @ [ConsoleLogRelayed out],
                               Returned))))))"

subsection \<open>leave-call\<close>

text \<open>The parameter is destructured as \<open>({ roomId })\<close>, which throws a \<open>TypeError\<close> when
  the event came without a payload.\<close>

definition leaveCall :: "(apiRequest \<Rightarrow> fetchOutcome) \<Rightarrow> string \<Rightarrow> leaveCallPayload option \<Rightarrow> registry \<Rightarrow> result" where
  "leaveCall fetch sid payload reg =
     (case payload of
        None \<Rightarrow> (reg, [], Threw TypeError)
      | Some p \<Rightarrow>
          (case lc_roomId p of
             None \<Rightarrow> (reg, [], Returned)
           | Some rid \<Rightarrow>
               if rid = [] then (reg, [], Returned)
               else
                 (case getProp reg rid of
                    Undefined \<Rightarrow> (reg, [], Returned)
                  | Inherited \<Rightarrow> (reg, [], Threw TypeError)
                  | Own users \<Rightarrow>
                      (let userToRemove = find (\<lambda>u. socketId u = sid) users;
                           users' = filter (\<lambda>u. socketId u \<noteq> sid) users;
                           reg' = AList.update rid users' reg;
                           tail = [SocketLeave sid rid, EmitUsersOnline rid users']
                       in case userToRemove of
                            None \<Rightarrow> (reg', tail, Returned)
                          | Some u \<Rightarrow>
                              (let call = removeParticipant rid (userId u) (name u)
                               in case post fetch (rq_path call) (rq_body call) of
                                    Inl e \<Rightarrow> (reg', [ApiPost call], Threw e)
                                  | Inr _ \<Rightarrow>
                                      (reg', [ApiPost call, ConsoleLogUser (userId u)] @ tail,
                                       Returned))))))"

section \<open>Events and reachable registries\<close>

definition registryOf :: "result \<Rightarrow> registry" where
  "registryOf r = fst r"

definition effectsOf :: "result \<Rightarrow> effect list" where
  "effectsOf r = fst (snd r)"

definition outcomeOf :: "result \<Rightarrow> outcome" where
  "outcomeOf r = snd (snd r)"

text \<open>One event of one connection, dispatched to its handler. \<open>fetch\<close> is what the
  backend answers during the handler and \<open>now\<close> is what \<open>new Date().toISOString()\<close>
  gives.\<close>

fun handle :: "(apiRequest \<Rightarrow> fetchOutcome) \<Rightarrow> string \<Rightarrow> event \<Rightarrow> registry \<Rightarrow> result" where
  "handle fetch now (NewUser sid userData) reg = newUser fetch sid userData reg"
| "handle fetch now (Disconnect sid) reg = disconnect fetch sid reg"
| "handle fetch now (ChatMessage sid payload) reg = chatMessage now sid payload reg"
| "handle fetch now (LeaveCall sid payload) reg = leaveCall fetch sid payload reg"

definition run :: "(apiRequest \<Rightarrow> fetchOutcome) \<Rightarrow> string \<Rightarrow> event list \<Rightarrow> registry \<Rightarrow> registry" where
  "run fetch now evs reg = foldl (\<lambda>r ev. registryOf (handle fetch now ev r)) reg evs"


section \<open>Notions of the specification\<close>

definition membersOf :: "registry \<Rightarrow> string \<Rightarrow> member list" where
  "membersOf reg rid = (case map_of reg rid of Some users \<Rightarrow> users | None \<Rightarrow> [])"

definition roomsHolding :: "string \<Rightarrow> registry \<Rightarrow> string list" where
  "roomsHolding sid reg =
     map fst (filter (\<lambda>(rid, users). list_ex (\<lambda>u. socketId u = sid) users) reg)"

definition userIdsUnique :: "registry \<Rightarrow> bool" where
  "userIdsUnique reg = list_all (\<lambda>(rid, users). distinct (map userId users)) reg"

definition allOk :: "apiRequest \<Rightarrow> fetchOutcome" where
  "allOk rq = FetchResponse True NotJson"

definition allFail :: "apiRequest \<Rightarrow> fetchOutcome" where
  "allFail rq = FetchResponse False NotJson"

definition isApiPost :: "effect \<Rightarrow> bool" where
  "isApiPost e = (case e of ApiPost _ \<Rightarrow> True | _ \<Rightarrow> False)"

definition isEmit :: "effect \<Rightarrow> bool" where
  "isEmit e = (case e of EmitUsersOnline _ _ \<Rightarrow> True | EmitChatMessage _ _ \<Rightarrow> True | _ \<Rightarrow> False)"

text \<open>A join payload that passes the handler's guard, with its user id and room id.\<close>

definition validJoin :: "userData \<Rightarrow> string \<Rightarrow> string \<Rightarrow> bool" where
  "validJoin ud uid rid \<longleftrightarrow> ud_userId ud = Some uid \<and> ud_roomId ud = Some rid \<and> uid \<noteq> [] \<and> rid \<noteq> []"

text \<open>The member object that a join of connection \<open>sid\<close> writes.\<close>

definition announced :: "string \<Rightarrow> string \<Rightarrow> userData \<Rightarrow> member" where
  "announced sid uid ud = \<lparr>socketId = sid, userId = uid, name = ud_name ud, photo = ud_photo ud\<rparr>"

text \<open>A join of a connection that is already in the room, announcing a user id that
  another member of the room holds.\<close>

definition reannouncesTakenUserId :: "string \<Rightarrow> userData \<Rightarrow> registry \<Rightarrow> bool" where
  "reannouncesTakenUserId sid ud reg =
     (case (ud_userId ud, ud_roomId ud) of
        (Some uid, Some rid) \<Rightarrow>
          (case findIndex (\<lambda>u. socketId u = sid) (membersOf reg rid) of
             Some i \<Rightarrow>
               list_ex (\<lambda>u. userId u = uid)
                 (take i (membersOf reg rid) @ drop (Suc i) (membersOf reg rid))
           | None \<Rightarrow> False)
      | _ \<Rightarrow> False)"

definition clashes :: "event \<Rightarrow> registry \<Rightarrow> bool" where
  "clashes ev reg =
     (case ev of NewUser sid (Some ud) \<Rightarrow> reannouncesTakenUserId sid ud reg | _ \<Rightarrow> False)"

text \<open>The members of a room that belong to other connections than \<open>sid\<close>.\<close>

definition others :: "string \<Rightarrow> member list \<Rightarrow> member list" where
  "others sid users = filter (\<lambda>u. socketId u \<noteq> sid) users"

text \<open>The members of a room with user id \<open>uid\<close>.\<close>

definition sameUser :: "string \<Rightarrow> member list \<Rightarrow> member list" where
  "sameUser uid users = filter (\<lambda>u. userId u = uid) users"

text \<open>A join of user \<open>uid\<close> to room \<open>rid\<close>, given by its connection id, name and photo;
  the member it announces; a sequence of such joins.\<close>

definition joinOf :: "string \<Rightarrow> string \<Rightarrow> string \<times> string option \<times> string option \<Rightarrow> event" where
  "joinOf uid rid j =
     (case j of (sid, nm, ph) \<Rightarrow>
        NewUser sid
          (Some \<lparr>ud_userId = Some uid, ud_name = nm, ud_photo = ph, ud_roomId = Some rid\<rparr>))"

definition memberOfJoin :: "string \<Rightarrow> string \<times> string option \<times> string option \<Rightarrow> member" where
  "memberOfJoin uid j =
     (case j of (sid, nm, ph) \<Rightarrow> \<lparr>socketId = sid, userId = uid, name = nm, photo = ph\<rparr>)"

definition joinsOf :: "string \<Rightarrow> string \<Rightarrow> (string \<times> string option \<times> string option) list \<Rightarrow> event list" where
  "joinsOf uid rid js = map (joinOf uid rid) js"


section \<open>Example registries and payloads\<close>

definition roomR2 :: registry where
  "roomR2 = [(''R2'', [\<lparr>socketId = ''s2'', userId = ''B'', name = Some ''Bea'', photo = None\<rparr>])]"

definition hi :: chatMessagePayload where
  "hi = \<lparr>cm_userId = ''B'', cm_message = Some [0x20, 0x20, 0x68, 0x69, 0x20, 0x20], cm_timestamp = None\<rparr>"

definition bea :: userData where
  "bea = \<lparr>ud_userId = Some ''B'', ud_name = Some ''Bea'', ud_photo = None, ud_roomId = Some ''R2''\<rparr>"

definition beaMember :: member where
  "beaMember = \<lparr>socketId = ''s2'', userId = ''B'', name = Some ''Bea'', photo = None\<rparr>"

definition joinAs :: "string \<Rightarrow> string \<Rightarrow> userData" where
  "joinAs uid rid = \<lparr>ud_userId = Some uid, ud_name = None, ud_photo = None, ud_roomId = Some rid\<rparr>"

definition stolenIdentity :: "event list" where
  "stolenIdentity =
     [NewUser ''s1'' (Some (joinAs ''A'' ''R1'')), NewUser ''s2'' (Some (joinAs ''B'' ''R1'')),
      NewUser ''s2'' (Some (joinAs ''A'' ''R1''))]"

definition twoRoomJoins :: "event list" where
  "twoRoomJoins = [NewUser ''s1'' (Some (joinAs ''A'' ''R1'')), NewUser ''s1'' (Some (joinAs ''A'' ''R2''))]"

definition twoRooms :: registry where
  "twoRooms =
     [(''R1'', [\<lparr>socketId = ''s1'', userId = ''A'', name = None, photo = None\<rparr>]),
      (''R2'', [\<lparr>socketId = ''s1'', userId = ''A'', name = None, photo = None\<rparr>])]"

definition reloads :: "(string \<times> string option \<times> string option) list" where
  "reloads = [(''c1'', Some ''Ann'', None), (''c2'', Some ''Ann B.'', Some ''ann.png'')]"

section \<open>Basic facts\<close>

lemma getProp_update:
  "getProp (AList.update k v reg) k' = (if k' = k then Own v else getProp reg k')"
  by (simp add: getProp_def update_conv')

lemma getProp_Own_iff: "getProp reg k = Own users \<longleftrightarrow> map_of reg k = Some users"
  by (simp add: getProp_def split: option.splits)

lemma membersOf_update:
  "membersOf (AList.update k v reg) k' = (if k' = k then v else membersOf reg k')"
  by (simp add: membersOf_def update_conv')

lemma findIndex_None_iff: "findIndex P xs = None \<longleftrightarrow> (\<forall>x \<in> set xs. \<not> P x)"
  by (induction xs) auto

lemma findIndex_SomeD:
  "findIndex P xs = Some i \<Longrightarrow> i < length xs \<and> P (xs ! i) \<and> (\<forall>j<i. \<not> P (xs ! j))"
proof (induction xs arbitrary: i)
  case Nil
  then show ?case by simp
next
  case (Cons x xs)
  show ?case
  proof (cases "P x")
    case True
    with Cons.prems show ?thesis by simp
  next
    case False
    with Cons.prems obtain k where k: "findIndex P xs = Some k" "i = Suc k"
      by auto
    from Cons.IH [OF k(1)] False k(2) show ?thesis
      by (auto simp: nth_Cons split: nat.splits)
  qed
qed

lemma findIndex_update_same:
  "findIndex P xs = Some i \<Longrightarrow> P m \<Longrightarrow> findIndex P (xs[i := m]) = Some i"
proof (induction xs arbitrary: i)
  case Nil
  then show ?case by simp
next
  case (Cons x xs)
  show ?case
  proof (cases "P x")
    case True
    with Cons.prems show ?thesis by simp
  next
    case False
    with Cons.prems obtain k where k: "findIndex P xs = Some k" "i = Suc k"
      by auto
    from Cons.IH [OF k(1) Cons.prems(2)] False k(2) show ?thesis
      by simp
  qed
qed


lemma findIndex_first_is:
  assumes "\<forall>x \<in> set xs. P x \<longrightarrow> x = m" and "m \<in> set xs" and "P m"
  shows "\<exists>i. findIndex P xs = Some i \<and> xs ! i = m"
proof -
  from assms(2,3) have "findIndex P xs \<noteq> None"
    unfolding findIndex_None_iff by blast
  then obtain i where i: "findIndex P xs = Some i"
    by blast
  from findIndex_SomeD [OF i] have "xs ! i \<in> set xs" and "P (xs ! i)"
    by simp_all
  with assms(1) have "xs ! i = m"
    by blast
  with i show ?thesis
    by blast
qed

lemma membersOf_Own: "getProp reg rid = Own users \<Longrightarrow> membersOf reg rid = users"
  by (simp add: getProp_Own_iff membersOf_def)

lemma findSender_SomeD:
  "findSender sid ks reg = Inr (Some (u, rid)) \<Longrightarrow>
     \<exists>i<length ks. ks ! i = rid \<and> getProp reg rid = Own (membersOf reg rid) \<and>
        find (\<lambda>m. socketId m = sid) (membersOf reg rid) = Some u \<and>
        (\<forall>j<i. find (\<lambda>m. socketId m = sid) (membersOf reg (ks ! j)) = None)"
proof (induction ks)
  case Nil
  then show ?case by simp
next
  case (Cons k ks)
  from Cons.prems obtain users where users: "getProp reg k = Own users"
    by (cases "getProp reg k") simp_all
  show ?case
  proof (cases "find (\<lambda>m. socketId m = sid) users")
    case (Some found)
    with Cons.prems users have "found = u" and "k = rid"
      by simp_all
    with Some users membersOf_Own [OF users] show ?thesis
      by (intro exI [of _ 0]) simp
  next
    case None
    with Cons.prems users have "findSender sid ks reg = Inr (Some (u, rid))"
      by simp
    from Cons.IH [OF this] obtain i where i: "i < length ks" "ks ! i = rid"
      "getProp reg rid = Own (membersOf reg rid)"
      "find (\<lambda>m. socketId m = sid) (membersOf reg rid) = Some u"
      "\<forall>j<i. find (\<lambda>m. socketId m = sid) (membersOf reg (ks ! j)) = None"
      by blast
    have "\<forall>j<Suc i. find (\<lambda>m. socketId m = sid) (membersOf reg ((k # ks) ! j)) = None"
    proof (intro allI impI)
      fix j assume "j < Suc i"
      then show "find (\<lambda>m. socketId m = sid) (membersOf reg ((k # ks) ! j)) = None"
        using i(5) None membersOf_Own [OF users] by (cases j) simp_all
    qed
    with i(1-4) show ?thesis
      by (intro exI [of _ "Suc i"]) simp
  qed
qed



lemma set_forInKeys: "set (forInKeys reg) = fst ` set reg"
  by (auto simp: forInKeys_def Let_def)





lemma newUser_no_payload: "newUser fetch sid None reg = (reg, [], Threw TypeError)"
  by (simp add: newUser_def)

lemma leaveCall_no_payload: "leaveCall fetch sid None reg = (reg, [], Threw TypeError)"
  by (simp add: leaveCall_def)




lemma chatMessage_registry: "registryOf (chatMessage now sid payload reg) = reg"
  by (auto simp: chatMessage_def registryOf_def Let_def split: option.splits sum.splits)



section \<open>Invalid input\<close>

text \<open>
  A join whose payload is there and whose \<open>userId\<close> or \<open>roomId\<close> is missing or empty, and a
  chat message whose text is missing or empty after trimming, are dropped: the registry is
  unchanged, the handler performs no effect at all (no emit, no backend call, no room
  operation, no log line) and it returns normally.
\<close>

lemma invalid_input_dropped:
  "((ud_userId ud = None \<or> ud_userId ud = Some [] \<or> ud_roomId ud = None \<or> ud_roomId ud = Some [])
      \<longrightarrow> newUser fetch sid (Some ud) reg = (reg, [], Returned)) \<and>
   ((case cm_message p of None \<Rightarrow> True | Some text \<Rightarrow> trim text = [])
      \<longrightarrow> chatMessage now sid (Some p) reg = (reg, [], Returned))"
  by (auto simp: newUser_def chatMessage_def split: option.splits)

lemma invalid_input_dropped_example:
  "newUser allFail ''s1''
       (Some \<lparr>ud_userId = Some [], ud_name = None, ud_photo = None, ud_roomId = Some ''R1''\<rparr>)
       [(''R1'', [])] = ([(''R1'', [])], [], Returned) \<and>
   newUser allFail ''s1''
       (Some \<lparr>ud_userId = Some ''A'', ud_name = None, ud_photo = None, ud_roomId = None\<rparr>)
       [(''R1'', [])] = ([(''R1'', [])], [], Returned) \<and>
   chatMessage ''t'' ''s1'' (Some \<lparr>cm_userId = ''A'', cm_message = Some [0x20, 0x09, 0x0A], cm_timestamp = None\<rparr>)
       [(''R1'', [\<lparr>socketId = ''s1'', userId = ''A'', name = None, photo = None\<rparr>])]
     = ([(''R1'', [\<lparr>socketId = ''s1'', userId = ''A'', name = None, photo = None\<rparr>])], [], Returned)"
proof -
  have t: "trim [0x20, 0x09, 0x0A] = []"
    by (simp add: trim_def isWhiteSpace_def)
  show ?thesis
    using invalid_input_dropped [where ud = "\<lparr>ud_userId = Some [], ud_name = None, ud_photo = None, ud_roomId = Some ''R1''\<rparr>"
        and fetch = allFail and sid = "''s1''" and reg = "[(''R1'', [])]"]
      invalid_input_dropped [where ud = "\<lparr>ud_userId = Some ''A'', ud_name = None, ud_photo = None, ud_roomId = None\<rparr>"
        and fetch = allFail and sid = "''s1''" and reg = "[(''R1'', [])]"]
      invalid_input_dropped [where p = "\<lparr>cm_userId = ''A'', cm_message = Some [0x20, 0x09, 0x0A], cm_timestamp = None\<rparr>"
        and now = "''t''" and sid = "''s1''"
        and reg = "[(''R1'', [\<lparr>socketId = ''s1'', userId = ''A'', name = None, photo = None\<rparr>])]"] t
    by simp
qed

text \<open>
  Claim C9 says that a join whose \<open>userId\<close> or \<open>roomId\<close> is empty or missing is dropped
  without an exception. The handler does so whenever the event has a payload (see
  \<open>invalid_input_dropped\<close>), but not for a join that comes with no payload at all, where
  both fields are missing: \<open>userData\<close> is destructured before the guard
  \<open>if (!userId || !roomId) return\<close>, and the destructuring of \<open>undefined\<close> throws a
  \<open>TypeError\<close>. The chat handler, which reads \<open>payload?.message?.trim()\<close>, drops an event
  without payload as the claim says.
\<close>

theorem join_without_payload_throws:
  "newUser fetch sid None reg = (reg, [], Threw TypeError) \<and>
   chatMessage now sid None reg = (reg, [], Returned)"
  by (simp add: newUser_def chatMessage_def)

section \<open>The chat relay\<close>

lemma findSender_no_member:
  "roomsHolding sid reg = [] \<Longrightarrow> findSender sid ks reg = Inr None \<or> findSender sid ks reg = Inl TypeError"
proof (induction ks)
  case Nil
  then show ?case by simp
next
  case (Cons k ks)
  show ?case
  proof (cases "getProp reg k")
    case (Own users)
    then have "(k, users) \<in> set reg"
      by (simp add: getProp_Own_iff map_of_SomeD)
    with Cons.prems have "find (\<lambda>m. socketId m = sid) users = None"
      by (auto simp: roomsHolding_def filter_empty_conv find_None_iff list_ex_iff)
    with Own Cons show ?thesis
      by simp
  qed simp_all
qed

lemma find_socket_None:
  "find (\<lambda>m. socketId m = sid) users = None \<longleftrightarrow> sid \<notin> socketId ` set users"
  by (auto simp: find_None_iff)

lemma membersOf_nonempty_key: "membersOf reg rid \<noteq> [] \<Longrightarrow> rid \<in> fst ` set reg"
  by (auto simp: membersOf_def split: option.splits dest: map_of_SomeD intro: rev_image_eqI)




text \<open>
  Claim C8. The chat handler never changes the registry, and a chat message from a
  connection that is in no room's member list is broadcast to nobody.
\<close>

theorem chat_reads_only:
  "registryOf (chatMessage now sid payload reg) = reg \<and>
   (roomsHolding sid reg = [] \<longrightarrow> filter isEmit (effectsOf (chatMessage now sid payload reg)) = [])"
proof -
  have "filter isEmit (effectsOf (chatMessage now sid payload reg)) = []" if "roomsHolding sid reg = []"
    using findSender_no_member [OF that, of "forInKeys reg"]
    by (auto simp: chatMessage_def effectsOf_def Let_def isEmit_def split: option.splits)
  then show ?thesis
    by (simp add: chatMessage_registry)
qed

theorem chat_reads_only_witness:
  "roomsHolding ''s9'' roomR2 = [] \<and>
   registryOf (chatMessage ''t'' ''s9'' (Some hi) roomR2) = roomR2 \<and>
   filter isEmit (effectsOf (chatMessage ''t'' ''s9'' (Some hi) roomR2)) = []"
proof -
  have h: "roomsHolding ''s9'' roomR2 = []"
    by (simp add: roomsHolding_def roomR2_def)
  with chat_reads_only [of "''t''" "''s9''" "Some hi" roomR2] show ?thesis
    by simp
qed

text \<open>
  Claim C10. Every chat message that is broadcast carries the \<open>userId\<close> of the inbound
  payload as it came, whatever \<open>userId\<close> the registry holds for the sending connection;
  \<open>name\<close> and \<open>photo\<close> are those of the sender's member in the room of the broadcast.
\<close>

theorem chat_userId_verbatim:
  assumes "EmitChatMessage rid out \<in> set (effectsOf (chatMessage now sid (Some p) reg))"
  shows "om_userId out = cm_userId p \<and>
         (\<exists>u. find (\<lambda>m. socketId m = sid) (membersOf reg rid) = Some u \<and>
              om_name out = name u \<and> om_photo out = photo u)"
proof -
  from assms obtain msg where msg: "cm_message p = Some msg" "trim msg \<noteq> []"
    by (auto simp: chatMessage_def effectsOf_def Let_def split: option.splits if_splits)
  from assms msg obtain found where found: "findSender sid (forInKeys reg) reg = Inr found"
    by (cases "findSender sid (forInKeys reg) reg") (simp_all add: chatMessage_def effectsOf_def)
  from assms msg found obtain u where u: "found = Some (u, rid)"
    by (cases found) (auto simp: chatMessage_def effectsOf_def Let_def split: if_splits)
  from findSender_SomeD [OF found [unfolded u]]
  have f: "find (\<lambda>m. socketId m = sid) (membersOf reg rid) = Some u"
    by blast
  from assms msg found u have
    "om_userId out = cm_userId p" "om_name out = name u" "om_photo out = photo u"
    by (auto simp: chatMessage_def effectsOf_def Let_def split: if_splits)
  with f show ?thesis
    by blast
qed

text \<open>The payload says \<open>Z\<close>, the registry says \<open>B\<close>.\<close>

theorem chat_userId_verbatim_witness:
  "EmitChatMessage ''R2''
      \<lparr>om_userId = ''Z'', om_message = [0x68, 0x69], om_timestamp = ''t'',
       om_name = Some ''Bea'', om_photo = None\<rparr>
     \<in> set (effectsOf (chatMessage ''t'' ''s2'' (Some (hi\<lparr>cm_userId := ''Z''\<rparr>)) roomR2)) \<and>
   cm_userId (hi\<lparr>cm_userId := ''Z''\<rparr>) = ''Z'' \<and>
   map userId (membersOf roomR2 ''R2'') = [''B'']"
proof -
  have t: "trim [0x20, 0x20, 0x68, 0x69, 0x20, 0x20] = [0x68, 0x69]"
    by (simp add: trim_def isWhiteSpace_def)
  have k: "forInKeys roomR2 = [''R2'']"
    by (simp add: forInKeys_def roomR2_def isArrayIndex_def isDigit_def)
  have e: "EmitChatMessage ''R2''
      \<lparr>om_userId = ''Z'', om_message = [0x68, 0x69], om_timestamp = ''t'',
       om_name = Some ''Bea'', om_photo = None\<rparr>
     \<in> set (effectsOf (chatMessage ''t'' ''s2'' (Some (hi\<lparr>cm_userId := ''Z''\<rparr>)) roomR2))"
    by (simp add: chatMessage_def effectsOf_def hi_def t k) (simp add: roomR2_def getProp_def Let_def)
  from chat_userId_verbatim [OF e] e show ?thesis
    by (simp add: hi_def roomR2_def membersOf_def)
qed

section \<open>The join handler\<close>

lemma membersOf_Undefined: "getProp reg rid = Undefined \<Longrightarrow> membersOf reg rid = []"
  by (simp add: getProp_def membersOf_def split: option.splits if_splits)

lemma getProp_cases:
  obtains (own) users where "getProp reg rid = Own users" "membersOf reg rid = users"
  | (inherited) "getProp reg rid = Inherited"
  | (undefined) "getProp reg rid = Undefined" "membersOf reg rid = []"
  by (cases "getProp reg rid") (auto simp: membersOf_Own membersOf_Undefined)

lemma newUser_inherited:
  assumes "validJoin ud uid rid" and "getProp reg rid = Inherited"
  shows "newUser fetch sid (Some ud) reg = (reg, [], Threw TypeError)"
  using assms by (simp add: newUser_def validJoin_def)

lemma newUser_reannounce:
  assumes "validJoin ud uid rid" and "getProp reg rid \<noteq> Inherited"
    and "findIndex (\<lambda>u. socketId u = sid) (membersOf reg rid) = Some i"
  shows "newUser fetch sid (Some ud) reg =
           (AList.update rid ((membersOf reg rid)[i := announced sid uid ud]) reg,
            [SocketJoin sid rid, EmitUsersOnline rid ((membersOf reg rid)[i := announced sid uid ud])],
            Returned)"
proof (cases rule: getProp_cases [of reg rid])
  case (own users)
  with assms show ?thesis
    by (simp add: newUser_def validJoin_def announced_def joinAndEmit_def Let_def)
next
  case inherited
  with assms show ?thesis by simp
next
  case undefined
  with assms show ?thesis by simp
qed

lemma newUser_new:
  assumes "validJoin ud uid rid" and "getProp reg rid \<noteq> Inherited"
    and "findIndex (\<lambda>u. socketId u = sid) (membersOf reg rid) = None"
    and "\<not> list_ex (\<lambda>u. userId u = uid) (membersOf reg rid)"
  shows "newUser fetch sid (Some ud) reg =
           (case post fetch (rq_path (addParticipant rid uid (ud_name ud)))
                   (rq_body (addParticipant rid uid (ud_name ud))) of
              Inl e \<Rightarrow>
                (AList.update rid (membersOf reg rid @ [announced sid uid ud]) reg,
                 [ApiPost (addParticipant rid uid (ud_name ud))], Threw e)
            | Inr _ \<Rightarrow>
                (AList.update rid (membersOf reg rid @ [announced sid uid ud]) reg,
                 [ApiPost (addParticipant rid uid (ud_name ud)), SocketJoin sid rid,
                  EmitUsersOnline rid (membersOf reg rid @ [announced sid uid ud])],
                 Returned))"
proof (cases rule: getProp_cases [of reg rid])
  case (own users)
  with assms show ?thesis
    by (simp add: newUser_def validJoin_def announced_def joinAndEmit_def Let_def
        split: sum.splits)
next
  case inherited
  with assms show ?thesis by simp
next
  case undefined
  with assms show ?thesis
    by (simp add: newUser_def validJoin_def announced_def joinAndEmit_def Let_def getProp_update
        split: sum.splits)
qed

lemma newUser_reconnect:
  assumes "validJoin ud uid rid" and "getProp reg rid \<noteq> Inherited"
    and "findIndex (\<lambda>u. socketId u = sid) (membersOf reg rid) = None"
    and "list_ex (\<lambda>u. userId u = uid) (membersOf reg rid)"
  shows "newUser fetch sid (Some ud) reg =
           (AList.update rid
              (map (\<lambda>u. if userId u = uid then announced sid uid ud else u) (membersOf reg rid)) reg,
            [SocketJoin sid rid,
             EmitUsersOnline rid
               (map (\<lambda>u. if userId u = uid then announced sid uid ud else u) (membersOf reg rid))],
            Returned)"
proof (cases rule: getProp_cases [of reg rid])
  case (own users)
  with assms show ?thesis
    by (simp add: newUser_def validJoin_def announced_def joinAndEmit_def Let_def cong: if_cong)
next
  case inherited
  with assms show ?thesis by simp
next
  case undefined
  with assms show ?thesis by simp
qed

lemma newUser_invalid:
  "\<not> (\<exists>uid rid. validJoin ud uid rid) \<Longrightarrow> newUser fetch sid (Some ud) reg = (reg, [], Returned)"
  by (auto simp: newUser_def validJoin_def split: option.splits)

lemma newUser_registers:
  assumes v: "validJoin ud uid rid" and ni: "getProp reg rid \<noteq> Inherited"
  shows "\<exists>users i. getProp (registryOf (newUser fetch sid (Some ud) reg)) rid = Own users \<and>
           findIndex (\<lambda>u. socketId u = sid) users = Some i \<and> users ! i = announced sid uid ud"
proof -
  let ?P = "\<lambda>u. socketId u = sid"
  let ?a = "announced sid uid ud"
  let ?ms = "membersOf reg rid"
  have Pa: "?P ?a"
    by (simp add: announced_def)
  show ?thesis
  proof (cases "findIndex ?P ?ms")
    case (Some i)
    from findIndex_SomeD [OF Some] have "i < length ?ms"
      by simp
    then have "(?ms[i := ?a]) ! i = ?a"
      by simp
    moreover have "findIndex ?P (?ms[i := ?a]) = Some i"
      by (rule findIndex_update_same [OF Some Pa])
    moreover have "getProp (registryOf (newUser fetch sid (Some ud) reg)) rid = Own (?ms[i := ?a])"
      by (simp add: newUser_reannounce [OF v ni Some] registryOf_def getProp_update)
    ultimately show ?thesis
      by blast
  next
    case None
    then have noP: "\<forall>x \<in> set ?ms. \<not> ?P x"
      by (simp add: findIndex_None_iff)
    show ?thesis
    proof (cases "list_ex (\<lambda>u. userId u = uid) ?ms")
      case False
      have "getProp (registryOf (newUser fetch sid (Some ud) reg)) rid = Own (?ms @ [?a])"
        by (simp add: newUser_new [OF v ni None False] registryOf_def getProp_update
            split: sum.splits)
      moreover from noP have "\<forall>x \<in> set (?ms @ [?a]). ?P x \<longrightarrow> x = ?a"
        by auto
      from findIndex_first_is [OF this _ Pa]
      have "\<exists>i. findIndex ?P (?ms @ [?a]) = Some i \<and> (?ms @ [?a]) ! i = ?a"
        by simp
      ultimately show ?thesis
        by blast
    next
      case True
      let ?g = "\<lambda>u. if userId u = uid then ?a else u"
      have "getProp (registryOf (newUser fetch sid (Some ud) reg)) rid = Own (map ?g ?ms)"
        by (simp add: newUser_reconnect [OF v ni None True] registryOf_def getProp_update)
      moreover from noP have "\<forall>x \<in> set (map ?g ?ms). ?P x \<longrightarrow> x = ?a"
        by auto
      moreover from True have "?a \<in> set (map ?g ?ms)"
        by (auto simp: list_ex_iff image_iff)
      ultimately show ?thesis
        using findIndex_first_is [of "map ?g ?ms" ?P ?a] Pa by blast
    qed
  qed
qed

lemma newUser_registered_again:
  assumes v: "validJoin ud uid rid" and own: "getProp reg rid = Own users"
    and i: "findIndex (\<lambda>u. socketId u = sid) users = Some i" and a: "users ! i = announced sid uid ud"
  shows "newUser fetch sid (Some ud) reg = (reg, [SocketJoin sid rid, EmitUsersOnline rid users], Returned)"
proof -
  from own have ms: "membersOf reg rid = users" and ni: "getProp reg rid \<noteq> Inherited"
    by (simp_all add: membersOf_Own)
  from a have same: "users[i := announced sid uid ud] = users"
    by (metis list_update_id)
  from own have "AList.update rid users reg = reg"
    by (simp add: getProp_Own_iff update_triv)
  with newUser_reannounce [OF v ni, of sid i fetch] i ms same show ?thesis
    by simp
qed

lemma bea_joins:
  "newUser allOk ''s2'' (Some bea) [] =
     (roomR2,
      [ApiPost (addParticipant ''R2'' ''B'' (Some ''Bea'')), SocketJoin ''s2'' ''R2'',
       EmitUsersOnline ''R2'' [\<lparr>socketId = ''s2'', userId = ''B'', name = Some ''Bea'', photo = None\<rparr>]],
      Returned)"
  by (simp add: newUser_def bea_def getProp_def objectPrototypeKeys_def post_def request_def
      allOk_def addParticipant_def joinAndEmit_def Let_def roomR2_def)

text \<open>
  Claim C5. The same join event delivered twice in a row is idempotent on the registry:
  after the second delivery the registry (hence the room's member list) is what it was
  after the first, and the second delivery makes no backend call, whatever the backend
  answered to the first.
\<close>

theorem repeated_join_idempotent:
  "registryOf (newUser fetch' sid userData (registryOf (newUser fetch sid userData reg)))
     = registryOf (newUser fetch sid userData reg) \<and>
   filter isApiPost
     (effectsOf (newUser fetch' sid userData (registryOf (newUser fetch sid userData reg)))) = []"
proof (cases userData)
  case None
  then show ?thesis
    by (simp add: newUser_no_payload registryOf_def effectsOf_def)
next
  case (Some ud)
  show ?thesis
  proof (cases "\<exists>uid rid. validJoin ud uid rid")
    case False
    then show ?thesis
      by (simp add: Some newUser_invalid registryOf_def effectsOf_def)
  next
    case True
    then obtain uid rid where v: "validJoin ud uid rid"
      by blast
    show ?thesis
    proof (cases "getProp reg rid = Inherited")
      case True
      then show ?thesis
        by (simp add: Some newUser_inherited [OF v] registryOf_def effectsOf_def)
    next
      case False
      from newUser_registers [OF v False, of fetch sid] obtain users i where
        "getProp (registryOf (newUser fetch sid (Some ud) reg)) rid = Own users"
        "findIndex (\<lambda>u. socketId u = sid) users = Some i" "users ! i = announced sid uid ud"
        by blast
      from newUser_registered_again [OF v this, of fetch'] show ?thesis
        by (simp add: Some registryOf_def effectsOf_def isApiPost_def)
    qed
  qed
qed

theorem repeated_join_idempotent_witness:
  "registryOf (newUser allFail ''s2'' (Some bea) roomR2) = roomR2 \<and>
   filter isApiPost (effectsOf (newUser allFail ''s2'' (Some bea) roomR2)) = []"
  using repeated_join_idempotent [of allFail "''s2''" "Some bea" allOk "[]"]
  by (simp add: bea_joins registryOf_def)

text \<open>
  Claim C3, as the code has it. The handler awaits \<open>apiClient.post\<close> without catching
  its error, between the registry update and \<open>socket.join\<close>. When the call of a new-user
  join fails, the member stays appended to the room (nothing is rolled back), but the
  error leaves the handler: the connection is not attached to the room's broadcast group,
  no \<open>usersOnline\<close> broadcast is made and nothing is logged.
\<close>

theorem failed_add_participant_aborts_join:
  assumes "validJoin ud uid rid" and "getProp reg rid \<noteq> Inherited"
    and "sid \<notin> socketId ` set (membersOf reg rid)"
    and "uid \<notin> userId ` set (membersOf reg rid)"
    and "post fetch (rq_path (addParticipant rid uid (ud_name ud)))
           (rq_body (addParticipant rid uid (ud_name ud))) = Inl e"
  shows "newUser fetch sid (Some ud) reg =
           (AList.update rid (membersOf reg rid @ [announced sid uid ud]) reg,
            [ApiPost (addParticipant rid uid (ud_name ud))], Threw e)"
proof -
  from assms(3) have "findIndex (\<lambda>u. socketId u = sid) (membersOf reg rid) = None"
    by (auto simp: findIndex_None_iff)
  moreover from assms(4) have "\<not> list_ex (\<lambda>u. userId u = uid) (membersOf reg rid)"
    by (auto simp: list_ex_iff)
  ultimately show ?thesis
    using newUser_new [OF assms(1,2), of sid fetch] assms(5) by simp
qed

theorem failed_add_participant_aborts_join_witness:
  "validJoin bea ''B'' ''R2'' \<and> getProp [] ''R2'' \<noteq> Inherited \<and>
   ''s2'' \<notin> socketId ` set (membersOf [] ''R2'') \<and> ''B'' \<notin> userId ` set (membersOf [] ''R2'') \<and>
   post allFail (rq_path (addParticipant ''R2'' ''B'' (ud_name bea)))
     (rq_body (addParticipant ''R2'' ''B'' (ud_name bea))) = Inl (Error ''Request failed'') \<and>
   newUser allFail ''s2'' (Some bea) [] =
     (AList.update ''R2'' (membersOf [] ''R2'' @ [announced ''s2'' ''B'' bea]) [],
      [ApiPost (addParticipant ''R2'' ''B'' (ud_name bea))], Threw (Error ''Request failed''))"
proof -
  have v: "validJoin bea ''B'' ''R2''"
    by (simp add: validJoin_def bea_def)
  have g: "getProp [] ''R2'' \<noteq> Inherited"
    by (simp add: getProp_def objectPrototypeKeys_def)
  have s: "''s2'' \<notin> socketId ` set (membersOf [] ''R2'')"
    and u: "''B'' \<notin> userId ` set (membersOf [] ''R2'')"
    by (simp_all add: membersOf_def)
  have p: "post allFail (rq_path (addParticipant ''R2'' ''B'' (ud_name bea)))
     (rq_body (addParticipant ''R2'' ''B'' (ud_name bea))) = Inl (Error ''Request failed'')"
    by (simp add: post_def request_def allFail_def)
  from failed_add_participant_aborts_join [OF v g s u p] v g s u p show ?thesis
    by blast
qed

text \<open>The claim as stated fails: with a backend that answers with an error status, the
  first join of a room neither joins the socket to the room nor broadcasts.\<close>

theorem failed_add_participant_counterexample:
  "newUser allFail ''s2'' (Some bea) [] =
     (roomR2, [ApiPost (addParticipant ''R2'' ''B'' (Some ''Bea''))], Threw (Error ''Request failed'')) \<and>
   filter isEmit (effectsOf (newUser allFail ''s2'' (Some bea) [])) = [] \<and>
   SocketJoin ''s2'' ''R2'' \<notin> set (effectsOf (newUser allFail ''s2'' (Some bea) []))"
  by (simp add: newUser_def bea_def getProp_def objectPrototypeKeys_def post_def request_def
      allFail_def addParticipant_def joinAndEmit_def Let_def roomR2_def effectsOf_def isEmit_def)

section \<open>The leave handler\<close>

lemma filter_other_sockets_id:
  "sid \<notin> socketId ` set users \<Longrightarrow> filter (\<lambda>u. socketId u \<noteq> sid) users = users"
  by (induction users) auto

lemma find_socket_SomeD:
  "find (\<lambda>m. socketId m = sid) users = Some u \<Longrightarrow> u \<in> set users \<and> socketId u = sid"
  by (auto simp: find_Some_iff)

lemma update_same: "getProp reg rid = Own users \<Longrightarrow> AList.update rid users reg = reg"
  by (simp add: getProp_Own_iff update_triv)

lemma getProp_untracked:
  "rid \<notin> fst ` set reg \<Longrightarrow> rid \<notin> set objectPrototypeKeys \<Longrightarrow> getProp reg rid = Undefined"
  by (simp add: getProp_def map_of_eq_None_iff split: option.splits)

text \<open>
  Claim C6, as the code has it, for a leave event that has a payload. It is a no-op when
  the payload's \<open>roomId\<close> is missing or empty, and when the room is untracked and its id is
  not the name of a property of \<open>Object.prototype\<close>. When the room is tracked, the members
  with the requesting connection id are removed from that room and no other room is
  touched; the backend is told of a removal only if a member was found; and \<open>socket.leave\<close>
  and the \<open>usersOnline\<close> broadcast follow in every case in which the handler reaches its
  end, also when no member was removed. When the backend call fails, the handler ends
  there, after the removal.
\<close>

theorem leave_call_behaviour:
  "((roomId = None \<or> roomId = Some []) \<longrightarrow>
      leaveCall fetch sid (Some \<lparr>lc_roomId = roomId\<rparr>) reg = (reg, [], Returned)) \<and>
   (rid \<noteq> [] \<and> rid \<notin> fst ` set reg \<and> rid \<notin> set objectPrototypeKeys \<longrightarrow>
      leaveCall fetch sid (Some \<lparr>lc_roomId = Some rid\<rparr>) reg = (reg, [], Returned)) \<and>
   (rid \<noteq> [] \<and> map_of reg rid = Some users \<and> sid \<notin> socketId ` set users \<longrightarrow>
      leaveCall fetch sid (Some \<lparr>lc_roomId = Some rid\<rparr>) reg =
        (reg, [SocketLeave sid rid, EmitUsersOnline rid users], Returned)) \<and>
   (rid \<noteq> [] \<and> map_of reg rid = Some users \<and> find (\<lambda>m. socketId m = sid) users = Some u \<longrightarrow>
      leaveCall fetch sid (Some \<lparr>lc_roomId = Some rid\<rparr>) reg =
        (case post fetch (rq_path (removeParticipant rid (userId u) (name u)))
                (rq_body (removeParticipant rid (userId u) (name u))) of
           Inl e \<Rightarrow>
             (AList.update rid (filter (\<lambda>m. socketId m \<noteq> sid) users) reg,
              [ApiPost (removeParticipant rid (userId u) (name u))], Threw e)
         | Inr _ \<Rightarrow>
             (AList.update rid (filter (\<lambda>m. socketId m \<noteq> sid) users) reg,
              [ApiPost (removeParticipant rid (userId u) (name u)), ConsoleLogUser (userId u),
               SocketLeave sid rid,
               EmitUsersOnline rid (filter (\<lambda>m. socketId m \<noteq> sid) users)],
              Returned)))"
proof (intro conjI impI)
  assume "roomId = None \<or> roomId = Some []"
  then show "leaveCall fetch sid (Some \<lparr>lc_roomId = roomId\<rparr>) reg = (reg, [], Returned)"
    by (auto simp: leaveCall_def)
next
  assume "rid \<noteq> [] \<and> rid \<notin> fst ` set reg \<and> rid \<notin> set objectPrototypeKeys"
  then show "leaveCall fetch sid (Some \<lparr>lc_roomId = Some rid\<rparr>) reg = (reg, [], Returned)"
    by (simp add: leaveCall_def getProp_untracked)
next
  assume a: "rid \<noteq> [] \<and> map_of reg rid = Some users \<and> sid \<notin> socketId ` set users"
  then have "find (\<lambda>m. socketId m = sid) users = None" and "getProp reg rid = Own users"
    by (simp_all add: find_socket_None getProp_Own_iff)
  with a show "leaveCall fetch sid (Some \<lparr>lc_roomId = Some rid\<rparr>) reg =
        (reg, [SocketLeave sid rid, EmitUsersOnline rid users], Returned)"
    by (simp add: leaveCall_def Let_def filter_other_sockets_id update_same)
next
  assume a: "rid \<noteq> [] \<and> map_of reg rid = Some users \<and> find (\<lambda>m. socketId m = sid) users = Some u"
  then have "getProp reg rid = Own users"
    by (simp add: getProp_Own_iff)
  with a show "leaveCall fetch sid (Some \<lparr>lc_roomId = Some rid\<rparr>) reg =
        (case post fetch (rq_path (removeParticipant rid (userId u) (name u)))
                (rq_body (removeParticipant rid (userId u) (name u))) of
           Inl e \<Rightarrow>
             (AList.update rid (filter (\<lambda>m. socketId m \<noteq> sid) users) reg,
              [ApiPost (removeParticipant rid (userId u) (name u))], Threw e)
         | Inr _ \<Rightarrow>
             (AList.update rid (filter (\<lambda>m. socketId m \<noteq> sid) users) reg,
              [ApiPost (removeParticipant rid (userId u) (name u)), ConsoleLogUser (userId u),
               SocketLeave sid rid,
               EmitUsersOnline rid (filter (\<lambda>m. socketId m \<noteq> sid) users)],
              Returned))"
    by (simp add: leaveCall_def Let_def split: sum.splits)
qed

theorem leave_call_behaviour_witness:
  "leaveCall allOk ''s2'' (Some \<lparr>lc_roomId = Some []\<rparr>) roomR2 = (roomR2, [], Returned) \<and>
   leaveCall allOk ''s2'' (Some \<lparr>lc_roomId = Some ''R7''\<rparr>) roomR2 = (roomR2, [], Returned) \<and>
   leaveCall allOk ''s9'' (Some \<lparr>lc_roomId = Some ''R2''\<rparr>) roomR2 =
     (roomR2, [SocketLeave ''s9'' ''R2'', EmitUsersOnline ''R2'' [beaMember]], Returned) \<and>
   leaveCall allOk ''s2'' (Some \<lparr>lc_roomId = Some ''R2''\<rparr>) roomR2 =
     ([(''R2'', [])],
      [ApiPost (removeParticipant ''R2'' ''B'' (Some ''Bea'')), ConsoleLogUser ''B'',
       SocketLeave ''s2'' ''R2'', EmitUsersOnline ''R2'' []],
      Returned) \<and>
   leaveCall allFail ''s2'' (Some \<lparr>lc_roomId = Some ''R2''\<rparr>) roomR2 =
     ([(''R2'', [])], [ApiPost (removeParticipant ''R2'' ''B'' (Some ''Bea''))],
      Threw (Error ''Request failed''))"
proof -
  have own: "map_of roomR2 ''R2'' = Some [beaMember]"
    by (simp add: roomR2_def beaMember_def)
  have und: "''R7'' \<noteq> [] \<and> ''R7'' \<notin> fst ` set roomR2 \<and> ''R7'' \<notin> set objectPrototypeKeys"
    by (simp add: roomR2_def objectPrototypeKeys_def)
  have s9: "''s9'' \<notin> socketId ` set [beaMember]"
    by (simp add: beaMember_def)
  have s2: "find (\<lambda>m. socketId m = ''s2'') [beaMember] = Some beaMember"
    by (simp add: beaMember_def)
  have ok: "post allOk (rq_path (removeParticipant ''R2'' ''B'' (Some ''Bea'')))
       (rq_body (removeParticipant ''R2'' ''B'' (Some ''Bea''))) = Inr ()"
    by (simp add: post_def request_def allOk_def)
  have fail: "post allFail (rq_path (removeParticipant ''R2'' ''B'' (Some ''Bea'')))
       (rq_body (removeParticipant ''R2'' ''B'' (Some ''Bea''))) = Inl (Error ''Request failed'')"
    by (simp add: post_def request_def allFail_def)
  have upd: "AList.update ''R2'' (filter (\<lambda>m. socketId m \<noteq> ''s2'') [beaMember]) roomR2 = [(''R2'', [])]"
    by (simp add: roomR2_def beaMember_def)
  have upd': "AList.update ''R2'' [] roomR2 = [(''R2'', [])]"
    by (simp add: roomR2_def)
  have b: "userId beaMember = ''B''" "name beaMember = Some ''Bea''" "socketId beaMember = ''s2''"
    by (simp_all add: beaMember_def)
  from leave_call_behaviour [where roomId = "Some []" and fetch = allOk and sid = "''s2''" and reg = roomR2]
  have 1: "leaveCall allOk ''s2'' (Some \<lparr>lc_roomId = Some []\<rparr>) roomR2 = (roomR2, [], Returned)"
    by simp
  from leave_call_behaviour [where rid = "''R7''" and fetch = allOk and sid = "''s2''" and reg = roomR2] und
  have 2: "leaveCall allOk ''s2'' (Some \<lparr>lc_roomId = Some ''R7''\<rparr>) roomR2 = (roomR2, [], Returned)"
    by blast
  from leave_call_behaviour [where rid = "''R2''" and fetch = allOk and sid = "''s9''" and reg = roomR2
      and users = "[beaMember]"] own s9
  have 3: "leaveCall allOk ''s9'' (Some \<lparr>lc_roomId = Some ''R2''\<rparr>) roomR2 =
     (roomR2, [SocketLeave ''s9'' ''R2'', EmitUsersOnline ''R2'' [beaMember]], Returned)"
    by simp
  from leave_call_behaviour [where rid = "''R2''" and fetch = allOk and sid = "''s2''" and reg = roomR2
      and users = "[beaMember]" and u = beaMember] own s2
  have 4: "leaveCall allOk ''s2'' (Some \<lparr>lc_roomId = Some ''R2''\<rparr>) roomR2 =
     ([(''R2'', [])],
      [ApiPost (removeParticipant ''R2'' ''B'' (Some ''Bea'')), ConsoleLogUser ''B'',
       SocketLeave ''s2'' ''R2'', EmitUsersOnline ''R2'' []],
      Returned)"
    by (simp add: b ok upd upd')
  from leave_call_behaviour [where rid = "''R2''" and fetch = allFail and sid = "''s2''" and reg = roomR2
      and users = "[beaMember]" and u = beaMember] own s2
  have 5: "leaveCall allFail ''s2'' (Some \<lparr>lc_roomId = Some ''R2''\<rparr>) roomR2 =
     ([(''R2'', [])], [ApiPost (removeParticipant ''R2'' ''B'' (Some ''Bea''))],
      Threw (Error ''Request failed''))"
    by (simp add: b fail upd upd')
  from 1 2 3 4 5 show ?thesis
    by blast
qed

text \<open>The claim as stated fails: a connection that is not a member of the room leaves
  it, nothing is removed, and the detach and the broadcast happen all the same.\<close>

theorem leave_call_counterexample:
  "leaveCall allOk ''s9'' (Some \<lparr>lc_roomId = Some ''R2''\<rparr>) roomR2 =
     (roomR2, [SocketLeave ''s9'' ''R2'', EmitUsersOnline ''R2'' (membersOf roomR2 ''R2'')], Returned) \<and>
   ''s9'' \<notin> socketId ` set (membersOf roomR2 ''R2'')"
  by (simp add: leaveCall_def roomR2_def getProp_def membersOf_def Let_def)

text \<open>Two inputs are outside the statement above, and on both the handler throws a
  \<open>TypeError\<close> before it has done anything: a leave event that comes without a payload, and
  a room id that is untracked but names a property of \<open>Object.prototype\<close>, for which
  \<open>onlineUsersByRoom[roomId]\<close> is truthy and has no \<open>find\<close>.\<close>

lemma leaveCall_throws:
  "leaveCall fetch sid None reg = (reg, [], Threw TypeError)"
  "rid \<noteq> [] \<Longrightarrow> rid \<notin> fst ` set reg \<Longrightarrow> rid \<in> set objectPrototypeKeys \<Longrightarrow>
     leaveCall fetch sid (Some \<lparr>lc_roomId = Some rid\<rparr>) reg = (reg, [], Threw TypeError)"
proof -
  show "leaveCall fetch sid None reg = (reg, [], Threw TypeError)"
    by (rule leaveCall_no_payload)
next
  assume "rid \<noteq> []" and "rid \<notin> fst ` set reg" and "rid \<in> set objectPrototypeKeys"
  moreover from this have "getProp reg rid = Inherited"
    by (simp add: getProp_def map_of_eq_None_iff split: option.splits)
  ultimately show "leaveCall fetch sid (Some \<lparr>lc_roomId = Some rid\<rparr>) reg = (reg, [], Threw TypeError)"
    by (simp add: leaveCall_def)
qed

section \<open>One member per user id in a room\<close>

lemmas handler_defs =
  newUser_def disconnect_def leaveCall_def chatMessage_def joinAndEmit_def getProp_def
  objectPrototypeKeys_def post_def request_def addParticipant_def removeParticipant_def
  registryOf_def effectsOf_def outcomeOf_def run_def Let_def forInKeys_def isArrayIndex_def
  isDigit_def

lemma userIdsUnique_update:
  "userIdsUnique reg \<Longrightarrow> distinct (map userId v) \<Longrightarrow> userIdsUnique (AList.update k v reg)"
  by (induction reg) (auto simp: userIdsUnique_def)

lemma userIdsUnique_members:
  assumes "userIdsUnique reg"
  shows "distinct (map userId (membersOf reg rid))"
proof (cases "map_of reg rid")
  case None
  then show ?thesis by (simp add: membersOf_def)
next
  case (Some users)
  then have "(rid, users) \<in> set reg"
    by (rule map_of_SomeD)
  with assms have "distinct (map userId users)"
    by (auto simp: userIdsUnique_def list_all_iff)
  with Some show ?thesis
    by (simp add: membersOf_def)
qed

lemma distinct_userId_overwrite:
  assumes d: "distinct (map userId ms)" and i: "i < length ms"
    and free: "\<not> list_ex (\<lambda>u. userId u = userId a) (take i ms @ drop (Suc i) ms)"
  shows "distinct (map userId (ms[i := a]))"
proof -
  have "ms = take i ms @ ms ! i # drop (Suc i) ms"
    using i by (simp add: id_take_nth_drop)
  then have "distinct (map userId (take i ms @ ms ! i # drop (Suc i) ms))"
    using d by simp
  then have "distinct (map userId (take i ms @ a # drop (Suc i) ms))"
    using free by (auto simp: list_ex_iff)
  then show ?thesis
    using i by (simp add: upd_conv_take_nth_drop)
qed

lemma map_reconnect_userIds:
  "map userId (map (\<lambda>u. if userId u = uid then announced sid uid ud else u) ms) = map userId ms"
  by (induction ms) (auto simp: announced_def)

lemma newUser_userIdsUnique:
  assumes u: "userIdsUnique reg" and c: "\<not> reannouncesTakenUserId sid ud reg"
  shows "userIdsUnique (registryOf (newUser fetch sid (Some ud) reg))"
proof (cases "\<exists>uid rid. validJoin ud uid rid")
  case False
  with u show ?thesis
    by (simp add: newUser_invalid registryOf_def)
next
  case True
  then obtain uid rid where v: "validJoin ud uid rid"
    by blast
  let ?ms = "membersOf reg rid"
  let ?a = "announced sid uid ud"
  have dm: "distinct (map userId ?ms)"
    by (rule userIdsUnique_members [OF u])
  show ?thesis
  proof (cases "getProp reg rid = Inherited")
    case True
    with u show ?thesis
      by (simp add: newUser_inherited [OF v] registryOf_def)
  next
    case ni: False
    show ?thesis
    proof (cases "findIndex (\<lambda>u. socketId u = sid) ?ms")
      case (Some i)
      from findIndex_SomeD [OF Some] have i: "i < length ?ms"
        by simp
      from c v Some have "\<not> list_ex (\<lambda>u. userId u = userId ?a) (take i ?ms @ drop (Suc i) ?ms)"
        by (simp add: reannouncesTakenUserId_def validJoin_def announced_def)
      from distinct_userId_overwrite [OF dm i this] u show ?thesis
        by (simp add: newUser_reannounce [OF v ni Some] registryOf_def userIdsUnique_update)
    next
      case None
      show ?thesis
      proof (cases "list_ex (\<lambda>u. userId u = uid) ?ms")
        case False
        then have "distinct (map userId (?ms @ [?a]))"
          using dm by (auto simp: list_ex_iff announced_def)
        with u show ?thesis
          by (simp add: newUser_new [OF v ni None False] registryOf_def userIdsUnique_update
              split: sum.splits)
      next
        case True
        from dm u show ?thesis
          by (simp add: newUser_reconnect [OF v ni None True] registryOf_def userIdsUnique_update
              map_reconnect_userIds del: map_map)
      qed
    qed
  qed
qed

lemma disconnectRooms_userIdsUnique:
  "userIdsUnique reg \<Longrightarrow> userIdsUnique (registryOf (disconnectRooms fetch sid ks reg effs))"
proof (induction ks arbitrary: reg effs)
  case Nil
  then show ?case by (simp add: registryOf_def)
next
  case (Cons k ks)
  show ?case
  proof (cases "getProp reg k")
    case (Own users)
    then have "distinct (map userId users)"
      using userIdsUnique_members [OF Cons.prems, of k] by (simp add: membersOf_Own)
    then have "distinct (map userId (filter (\<lambda>u. socketId u \<noteq> sid) users))"
      by (rule distinct_map_filter)
    with Cons.prems have u': "userIdsUnique (AList.update k (filter (\<lambda>u. socketId u \<noteq> sid) users) reg)"
      by (rule userIdsUnique_update)
    have ih: "userIdsUnique (registryOf (disconnectRooms fetch sid ks
        (AList.update k (filter (\<lambda>u. socketId u \<noteq> sid) users) reg) effs'))" for effs'
      by (rule Cons.IH [OF u'])
    show ?thesis
      using Own ih u'
      by (simp add: Let_def split: option.splits sum.splits) (simp add: registryOf_def)
  next
    case Inherited
    with Cons.prems show ?thesis by (simp add: registryOf_def)
  next
    case Undefined
    with Cons.prems show ?thesis by (simp add: registryOf_def)
  qed
qed

lemma leaveCall_userIdsUnique:
  assumes "userIdsUnique reg"
  shows "userIdsUnique (registryOf (leaveCall fetch sid payload reg))"
proof -
  have "userIdsUnique (AList.update rid (filter (\<lambda>u. socketId u \<noteq> sid) users) reg)"
    if "getProp reg rid = Own users" for rid users
  proof -
    from that have "distinct (map userId users)"
      using userIdsUnique_members [OF assms, of rid] by (simp add: membersOf_Own)
    then have "distinct (map userId (filter (\<lambda>u. socketId u \<noteq> sid) users))"
      by (rule distinct_map_filter)
    with assms show ?thesis
      by (rule userIdsUnique_update)
  qed
  with assms show ?thesis
    by (auto simp: leaveCall_def registryOf_def Let_def
        split: option.splits property.splits sum.splits)
qed

lemma stolenIdentity_run:
  "run allOk ''t'' stolenIdentity [] =
     [(''R1'', [\<lparr>socketId = ''s1'', userId = ''A'', name = None, photo = None\<rparr>,
               \<lparr>socketId = ''s2'', userId = ''A'', name = None, photo = None\<rparr>])]"
  by (simp add: handler_defs stolenIdentity_def joinAs_def allOk_def)

text \<open>
  Claim C2, as the code has it. Every event keeps the user ids of each room's members
  distinct, except a join of a connection that is already in the room and announces a
  user id held by another member of that room: the handler overwrites the connection's
  entry without looking at the other entries.
\<close>

theorem userId_unique_preserved:
  assumes "userIdsUnique reg" and "\<not> clashes ev reg"
  shows "userIdsUnique (registryOf (handle fetch now ev reg))"
proof (cases ev)
  case (NewUser sid userData)
  show ?thesis
  proof (cases userData)
    case None
    with NewUser assms(1) show ?thesis
      by (simp add: newUser_no_payload registryOf_def)
  next
    case (Some ud)
    with NewUser assms show ?thesis
      by (simp add: clashes_def newUser_userIdsUnique)
  qed
next
  case (Disconnect sid)
  with assms show ?thesis
    by (simp add: disconnect_def disconnectRooms_userIdsUnique)
next
  case (ChatMessage sid payload)
  with assms show ?thesis
    by (simp add: chatMessage_registry)
next
  case (LeaveCall sid payload)
  with assms show ?thesis
    by (simp add: leaveCall_userIdsUnique)
qed


theorem userId_unique_preserved_witness:
  "userIdsUnique roomR2 \<and> \<not> clashes (NewUser ''s3'' (Some (joinAs ''B'' ''R2''))) roomR2 \<and>
   registryOf (handle allOk ''t'' (NewUser ''s3'' (Some (joinAs ''B'' ''R2''))) roomR2) =
     [(''R2'', [\<lparr>socketId = ''s3'', userId = ''B'', name = None, photo = None\<rparr>])] \<and>
   userIdsUnique (registryOf (handle allOk ''t'' (NewUser ''s3'' (Some (joinAs ''B'' ''R2''))) roomR2))"
proof -
  have u: "userIdsUnique roomR2"
    by (simp add: userIdsUnique_def roomR2_def)
  have c: "\<not> clashes (NewUser ''s3'' (Some (joinAs ''B'' ''R2''))) roomR2"
    by (simp add: clashes_def reannouncesTakenUserId_def joinAs_def roomR2_def membersOf_def)
  have r: "registryOf (handle allOk ''t'' (NewUser ''s3'' (Some (joinAs ''B'' ''R2''))) roomR2) =
     [(''R2'', [\<lparr>socketId = ''s3'', userId = ''B'', name = None, photo = None\<rparr>])]"
    by (simp add: handler_defs joinAs_def roomR2_def)
  from userId_unique_preserved [OF u c, of allOk "''t''"] u c r show ?thesis
    by blast
qed

text \<open>The claim as stated fails: \<open>s1\<close> joins as \<open>A\<close>, \<open>s2\<close> joins as \<open>B\<close>, then \<open>s2\<close>
  announces itself again as \<open>A\<close>; the room then has two members with user id \<open>A\<close>.\<close>

theorem userId_unique_counterexample:
  "userIdsUnique (run allOk ''t'' (take 2 stolenIdentity) []) \<and>
   map userId (membersOf (run allOk ''t'' stolenIdentity []) ''R1'') = [''A'', ''A''] \<and>
   \<not> userIdsUnique (run allOk ''t'' stolenIdentity [])"
proof -
  have "run allOk ''t'' (take 2 stolenIdentity) [] =
     [(''R1'', [\<lparr>socketId = ''s1'', userId = ''A'', name = None, photo = None\<rparr>,
               \<lparr>socketId = ''s2'', userId = ''B'', name = None, photo = None\<rparr>])]"
    by (simp add: handler_defs stolenIdentity_def joinAs_def allOk_def)
  then show ?thesis
    by (simp add: stolenIdentity_run userIdsUnique_def membersOf_def)
qed

section \<open>The disconnect handler\<close>

lemma others_idem: "others sid (others sid users) = others sid users"
  by (simp add: others_def)

lemma others_no_socket: "sid \<notin> socketId ` set (others sid users)"
  by (auto simp: others_def)

lemma find_others: "find (\<lambda>m. socketId m = sid) (others sid users) = None"
  by (simp add: find_socket_None others_no_socket)

text \<open>One round of the loop either stops with the room filtered, or goes on with the room
  filtered.\<close>

lemma disconnectRooms_step:
  assumes "getProp reg k = Own users"
  shows "(\<exists>effs'. disconnectRooms fetch sid (k # ks) reg effs =
             disconnectRooms fetch sid ks (AList.update k (others sid users) reg) effs' \<and>
           (\<forall>call. ApiPost call \<in> set effs' \<longrightarrow> ApiPost call \<in> set effs \<or>
              (\<exists>u. find (\<lambda>m. socketId m = sid) users = Some u \<and>
                   call = removeParticipant k (userId u) (name u)))) \<or>
         (\<exists>u e. find (\<lambda>m. socketId m = sid) users = Some u \<and>
            disconnectRooms fetch sid (k # ks) reg effs =
              (AList.update k (others sid users) reg,
               effs @ [ApiPost (removeParticipant k (userId u) (name u))], Threw e))"
proof (cases "length users \<noteq> length (others sid users)")
  case False
  with assms have "disconnectRooms fetch sid (k # ks) reg effs =
      disconnectRooms fetch sid ks (AList.update k (others sid users) reg) effs"
    by (simp add: others_def Let_def)
  then show ?thesis
    by blast
next
  case changed: True
  show ?thesis
  proof (cases "find (\<lambda>m. socketId m = sid) users")
    case None
    with assms changed have "disconnectRooms fetch sid (k # ks) reg effs =
        disconnectRooms fetch sid ks (AList.update k (others sid users) reg)
          (effs @ [EmitUsersOnline k (others sid users)])"
      by (simp add: others_def Let_def)
    then show ?thesis
      by (intro disjI1 exI [of _ "effs @ [EmitUsersOnline k (others sid users)]"]) simp
  next
    case (Some u)
    let ?call = "removeParticipant k (userId u) (name u)"
    show ?thesis
    proof (cases "post fetch (rq_path ?call) (rq_body ?call)")
      case (Inl e)
      with assms changed Some have "disconnectRooms fetch sid (k # ks) reg effs =
          (AList.update k (others sid users) reg, effs @ [ApiPost ?call], Threw e)"
        by (simp add: others_def Let_def)
      with Some show ?thesis
        by blast
    next
      case (Inr x)
      with assms changed Some have "disconnectRooms fetch sid (k # ks) reg effs =
          disconnectRooms fetch sid ks (AList.update k (others sid users) reg)
            (effs @ [ApiPost ?call, EmitUsersOnline k (others sid users)])"
        by (simp add: others_def Let_def)
      with Some show ?thesis
        by (intro disjI1 exI [of _ "effs @ [ApiPost ?call, EmitUsersOnline k (others sid users)]"])
          simp
    qed
  qed
qed

lemma disconnectRooms_not_own:
  "getProp reg k \<noteq> Own (membersOf reg k) \<Longrightarrow>
     disconnectRooms fetch sid (k # ks) reg effs = (reg, effs, Threw TypeError)"
  by (cases "getProp reg k") (simp_all add: membersOf_Own)

lemma disconnectRooms_members:
  "membersOf (registryOf (disconnectRooms fetch sid ks reg effs)) rid = membersOf reg rid \<or>
   membersOf (registryOf (disconnectRooms fetch sid ks reg effs)) rid = others sid (membersOf reg rid)"
proof (induction ks arbitrary: reg effs)
  case Nil
  show ?case by (simp add: registryOf_def)
next
  case (Cons k ks)
  show ?case
  proof (cases "getProp reg k = Own (membersOf reg k)")
    case False
    then have "disconnectRooms fetch sid (k # ks) reg effs = (reg, effs, Threw TypeError)"
      by (rule disconnectRooms_not_own)
    then show ?thesis
      by (simp add: registryOf_def del: disconnectRooms.simps)
  next
    case True
    let ?reg' = "AList.update k (others sid (membersOf reg k)) reg"
    have m': "membersOf ?reg' rid = (if rid = k then others sid (membersOf reg k) else membersOf reg rid)"
      by (simp add: membersOf_update)
    from disconnectRooms_step [OF True, of fetch sid ks effs]
    consider (go) effs' where "disconnectRooms fetch sid (k # ks) reg effs =
          disconnectRooms fetch sid ks ?reg' effs'"
      | (stop) "registryOf (disconnectRooms fetch sid (k # ks) reg effs) = ?reg'"
      by (auto simp: registryOf_def)
    then show ?thesis
    proof cases
      case go
      from Cons.IH [of ?reg' effs'] show ?thesis
        unfolding go m' by (auto simp: others_idem)
    next
      case stop
      show ?thesis
        unfolding stop m' by auto
    qed
  qed
qed

lemma disconnectRooms_returned:
  "outcomeOf (disconnectRooms fetch sid ks reg effs) = Returned \<Longrightarrow> rid \<in> set ks \<Longrightarrow>
     membersOf (registryOf (disconnectRooms fetch sid ks reg effs)) rid = others sid (membersOf reg rid)"
proof (induction ks arbitrary: reg effs)
  case Nil
  then show ?case by simp
next
  case (Cons k ks)
  from Cons.prems(1) have own: "getProp reg k = Own (membersOf reg k)"
    by (cases "getProp reg k") (simp_all add: outcomeOf_def membersOf_Own)
  let ?reg' = "AList.update k (others sid (membersOf reg k)) reg"
  have m': "membersOf ?reg' r = (if r = k then others sid (membersOf reg k) else membersOf reg r)" for r
    by (simp add: membersOf_update)
  from disconnectRooms_step [OF own, of fetch sid ks effs] Cons.prems(1)
  obtain effs' where go: "disconnectRooms fetch sid (k # ks) reg effs =
      disconnectRooms fetch sid ks ?reg' effs'"
    by (auto simp: outcomeOf_def)
  show ?case
  proof (cases "rid = k")
    case True
    from disconnectRooms_members [of fetch sid ks ?reg' effs' k] show ?thesis
      unfolding go m' True by (auto simp: others_idem)
  next
    case False
    with Cons.prems(2) have "rid \<in> set ks"
      by simp
    from Cons.IH [OF _ this, of ?reg' effs'] Cons.prems(1) False show ?thesis
      unfolding go m' by simp
  qed
qed

lemma disconnectRooms_calls:
  "ApiPost call \<in> set (effectsOf (disconnectRooms fetch sid ks reg effs)) \<Longrightarrow>
     ApiPost call \<in> set effs \<or>
     (\<exists>rid u. find (\<lambda>m. socketId m = sid) (membersOf reg rid) = Some u \<and>
        call = removeParticipant rid (userId u) (name u) \<and>
        sid \<notin> socketId ` set (membersOf (registryOf (disconnectRooms fetch sid ks reg effs)) rid))"
proof (induction ks arbitrary: reg effs)
  case Nil
  then show ?case by (simp add: effectsOf_def)
next
  case (Cons k ks)
  let ?P = "\<lambda>m. socketId m = sid"
  let ?users = "membersOf reg k"
  let ?reg' = "AList.update k (others sid ?users) reg"
  let ?final = "registryOf (disconnectRooms fetch sid (k # ks) reg effs)"
  show ?case
  proof (cases "getProp reg k = Own ?users")
    case False
    then have "disconnectRooms fetch sid (k # ks) reg effs = (reg, effs, Threw TypeError)"
      by (rule disconnectRooms_not_own)
    with Cons.prems show ?thesis
      by (simp add: effectsOf_def del: disconnectRooms.simps)
  next
    case own: True
    have m': "membersOf ?reg' r = (if r = k then others sid ?users else membersOf reg r)" for r
      by (simp add: membersOf_update)
    from disconnectRooms_step [OF own, of fetch sid ks effs]
    consider (go) effs' where
        "disconnectRooms fetch sid (k # ks) reg effs = disconnectRooms fetch sid ks ?reg' effs'"
        "\<forall>call. ApiPost call \<in> set effs' \<longrightarrow> ApiPost call \<in> set effs \<or>
           (\<exists>u. find ?P ?users = Some u \<and> call = removeParticipant k (userId u) (name u))"
      | (stop) u e where "find ?P ?users = Some u"
        "disconnectRooms fetch sid (k # ks) reg effs =
           (?reg', effs @ [ApiPost (removeParticipant k (userId u) (name u))], Threw e)"
      by blast
    then show ?thesis
    proof cases
      case go
      have cleaned: "sid \<notin> socketId ` set (membersOf ?final k)"
        using disconnectRooms_members [of fetch sid ks ?reg' effs' k]
        unfolding go(1) m' by (auto simp: others_idem others_no_socket)
      from Cons.prems have "ApiPost call \<in> set (effectsOf (disconnectRooms fetch sid ks ?reg' effs'))"
        unfolding go(1) .
      from Cons.IH [OF this]
      consider (old) "ApiPost call \<in> set effs'"
        | (later) rid u where "find ?P (membersOf ?reg' rid) = Some u"
          "call = removeParticipant rid (userId u) (name u)"
          "sid \<notin> socketId ` set (membersOf (registryOf (disconnectRooms fetch sid ks ?reg' effs')) rid)"
        by blast
      then show ?thesis
      proof cases
        case old
        with go(2) cleaned show ?thesis
          by blast
      next
        case later
        from later(1) have "rid \<noteq> k"
          unfolding m' by (auto simp: find_others)
        with later(1) have "find ?P (membersOf reg rid) = Some u"
          unfolding m' by simp
        with later(2,3) show ?thesis
          unfolding go(1) by blast
      qed
    next
      case stop
      have "sid \<notin> socketId ` set (membersOf ?final k)"
        unfolding stop(2) registryOf_def fst_conv m' by (simp add: others_no_socket)
      moreover from Cons.prems have
        "ApiPost call \<in> set effs \<or> call = removeParticipant k (userId u) (name u)"
        unfolding stop(2) effectsOf_def by auto
      ultimately show ?thesis
        using stop(1) by blast
    qed
  qed
qed

lemma twoRoomJoins_run: "run allOk ''t'' twoRoomJoins [] = twoRooms"
  by (simp add: handler_defs twoRoomJoins_def twoRooms_def joinAs_def allOk_def)

lemma twoRooms_disconnect:
  "disconnect allOk ''s1'' twoRooms =
     ([(''R1'', []), (''R2'', [])],
      [ApiPost (removeParticipant ''R1'' ''A'' None), EmitUsersOnline ''R1'' [],
       ApiPost (removeParticipant ''R2'' ''A'' None), EmitUsersOnline ''R2'' []],
      Returned)"
  by (simp add: handler_defs twoRooms_def allOk_def)

text \<open>
  Claim C1, as the code has it. A join never removes the connection from another room, so
  a connection id can be in the member lists of several rooms. A disconnect leaves the
  members of other connections in every room as they were; when it runs to its end it has
  removed the members with the connection's id from every room; and it makes a backend
  \<open>remove-participant\<close> call for a room only if a member with that connection id was found
  in that room and removed from it.
\<close>

theorem disconnect_removes_connection:
  "others sid (membersOf (registryOf (disconnect fetch sid reg)) rid) = others sid (membersOf reg rid) \<and>
   (outcomeOf (disconnect fetch sid reg) = Returned \<longrightarrow>
      membersOf (registryOf (disconnect fetch sid reg)) rid = others sid (membersOf reg rid)) \<and>
   (ApiPost call \<in> set (effectsOf (disconnect fetch sid reg)) \<longrightarrow>
      (\<exists>rid' u. find (\<lambda>m. socketId m = sid) (membersOf reg rid') = Some u \<and>
         call = removeParticipant rid' (userId u) (name u) \<and>
         sid \<notin> socketId ` set (membersOf (registryOf (disconnect fetch sid reg)) rid')))"
proof (intro conjI impI)
  from disconnectRooms_members [of fetch sid "forInKeys reg" reg "[]" rid]
  show "others sid (membersOf (registryOf (disconnect fetch sid reg)) rid) = others sid (membersOf reg rid)"
    unfolding disconnect_def by (auto simp: others_idem)
next
  assume r: "outcomeOf (disconnect fetch sid reg) = Returned"
  show "membersOf (registryOf (disconnect fetch sid reg)) rid = others sid (membersOf reg rid)"
  proof (cases "rid \<in> set (forInKeys reg)")
    case True
    from disconnectRooms_returned [OF r [unfolded disconnect_def] True] show ?thesis
      by (simp add: disconnect_def)
  next
    case False
    then have "membersOf reg rid = []"
      using membersOf_nonempty_key [of reg rid] by (auto simp: set_forInKeys)
    with disconnectRooms_members [of fetch sid "forInKeys reg" reg "[]" rid] show ?thesis
      by (auto simp: disconnect_def others_def)
  qed
next
  assume "ApiPost call \<in> set (effectsOf (disconnect fetch sid reg))"
  from disconnectRooms_calls [OF this [unfolded disconnect_def]]
  show "\<exists>rid' u. find (\<lambda>m. socketId m = sid) (membersOf reg rid') = Some u \<and>
         call = removeParticipant rid' (userId u) (name u) \<and>
         sid \<notin> socketId ` set (membersOf (registryOf (disconnect fetch sid reg)) rid')"
    by (simp add: disconnect_def)
qed

theorem disconnect_removes_connection_witness:
  "outcomeOf (disconnect allOk ''s1'' twoRooms) = Returned \<and>
   ApiPost (removeParticipant ''R2'' ''A'' None) \<in> set (effectsOf (disconnect allOk ''s1'' twoRooms)) \<and>
   membersOf (registryOf (disconnect allOk ''s1'' twoRooms)) ''R1'' = others ''s1'' (membersOf twoRooms ''R1'') \<and>
   (\<exists>rid' u. find (\<lambda>m. socketId m = ''s1'') (membersOf twoRooms rid') = Some u \<and>
      removeParticipant ''R2'' ''A'' None = removeParticipant rid' (userId u) (name u) \<and>
      ''s1'' \<notin> socketId ` set (membersOf (registryOf (disconnect allOk ''s1'' twoRooms)) rid'))"
proof -
  have r: "outcomeOf (disconnect allOk ''s1'' twoRooms) = Returned"
    by (simp add: twoRooms_disconnect outcomeOf_def)
  have c: "ApiPost (removeParticipant ''R2'' ''A'' None) \<in> set (effectsOf (disconnect allOk ''s1'' twoRooms))"
    by (simp add: twoRooms_disconnect effectsOf_def)
  from disconnect_removes_connection [of "''s1''" allOk twoRooms "''R1''" "removeParticipant ''R2'' ''A'' None"] r c
  show ?thesis
    by blast
qed

text \<open>The claim as stated fails: one connection joins \<open>R1\<close> and then \<open>R2\<close>; it is then a
  member of both rooms, and its disconnect removes two members and makes two backend
  calls.\<close>

theorem disconnect_counterexample:
  "roomsHolding ''s1'' (run allOk ''t'' twoRoomJoins []) = [''R1'', ''R2''] \<and>
   disconnect allOk ''s1'' (run allOk ''t'' twoRoomJoins []) =
     ([(''R1'', []), (''R2'', [])],
      [ApiPost (removeParticipant ''R1'' ''A'' None), EmitUsersOnline ''R1'' [],
       ApiPost (removeParticipant ''R2'' ''A'' None), EmitUsersOnline ''R2'' []],
      Returned)"
  by (simp add: twoRoomJoins_run twoRooms_disconnect) (simp add: roomsHolding_def twoRooms_def)

section \<open>Reconnecting users\<close>

lemma sameUser_reconnect:
  "sameUser uid (map (\<lambda>u. if userId u = uid then announced sid uid ud else u) ms) =
     map (\<lambda>_. announced sid uid ud) (sameUser uid ms)"
  by (induction ms) (auto simp: sameUser_def announced_def)

lemma sameUser_empty_iff: "sameUser uid ms = [] \<longleftrightarrow> \<not> list_ex (\<lambda>u. userId u = uid) ms"
  by (auto simp: sameUser_def filter_empty_conv list_ex_iff)

lemma not_Inherited: "rid \<notin> set objectPrototypeKeys \<Longrightarrow> getProp reg rid \<noteq> Inherited"
  by (simp add: getProp_def split: option.splits)

lemma join_fresh:
  assumes v: "validJoin ud uid rid" and np: "rid \<notin> set objectPrototypeKeys"
    and fresh: "sid \<notin> socketId ` set (membersOf reg rid)"
    and one: "length (sameUser uid (membersOf reg rid)) \<le> 1"
  shows "sameUser uid (membersOf (registryOf (newUser fetch sid (Some ud) reg)) rid) = [announced sid uid ud]"
    and "socketId ` set (membersOf (registryOf (newUser fetch sid (Some ud) reg)) rid)
           \<subseteq> insert sid (socketId ` set (membersOf reg rid))"
    and "filter isApiPost (effectsOf (newUser fetch sid (Some ud) reg)) =
           (if sameUser uid (membersOf reg rid) = [] then [ApiPost (addParticipant rid uid (ud_name ud))]
            else [])"
proof -
  let ?ms = "membersOf reg rid"
  let ?a = "announced sid uid ud"
  let ?r = "newUser fetch sid (Some ud) reg"
  have ni: "getProp reg rid \<noteq> Inherited"
    by (rule not_Inherited [OF np])
  from fresh have none: "findIndex (\<lambda>u. socketId u = sid) ?ms = None"
    by (auto simp: findIndex_None_iff)
  have "sameUser uid (membersOf (registryOf ?r) rid) = [?a] \<and>
        socketId ` set (membersOf (registryOf ?r) rid) \<subseteq> insert sid (socketId ` set ?ms) \<and>
        filter isApiPost (effectsOf ?r) =
           (if sameUser uid ?ms = [] then [ApiPost (addParticipant rid uid (ud_name ud))] else [])"
  proof (cases "list_ex (\<lambda>u. userId u = uid) ?ms")
    case False
    then have e: "sameUser uid ?ms = []"
      by (simp add: sameUser_empty_iff)
    have reg': "registryOf ?r = AList.update rid (?ms @ [?a]) reg"
      by (simp add: newUser_new [OF v ni none False] registryOf_def split: sum.splits)
    have eff: "filter isApiPost (effectsOf ?r) = [ApiPost (addParticipant rid uid (ud_name ud))]"
      by (simp add: newUser_new [OF v ni none False] effectsOf_def isApiPost_def split: sum.splits)
    have "sameUser uid (?ms @ [?a]) = [?a]"
      using e by (simp add: sameUser_def announced_def)
    moreover have "socketId ` set (?ms @ [?a]) \<subseteq> insert sid (socketId ` set ?ms)"
      by (auto simp: announced_def)
    ultimately show ?thesis
      using e eff by (simp add: reg' membersOf_update)
  next
    case True
    then have ne: "sameUser uid ?ms \<noteq> []"
      by (simp add: sameUser_empty_iff)
    with one obtain x where x: "sameUser uid ?ms = [x]"
      by (cases "sameUser uid ?ms") auto
    let ?g = "\<lambda>u. if userId u = uid then ?a else u"
    have reg': "registryOf ?r = AList.update rid (map ?g ?ms) reg"
      by (simp add: newUser_reconnect [OF v ni none True] registryOf_def)
    have eff: "filter isApiPost (effectsOf ?r) = []"
      by (simp add: newUser_reconnect [OF v ni none True] effectsOf_def isApiPost_def)
    have "sameUser uid (map ?g ?ms) = [?a]"
      by (simp add: sameUser_reconnect x)
    moreover have "socketId ` set (map ?g ?ms) \<subseteq> insert sid (socketId ` set ?ms)"
      by (auto simp: announced_def)
    ultimately show ?thesis
      using ne eff by (simp add: reg' membersOf_update)
  qed
  then show "sameUser uid (membersOf (registryOf ?r) rid) = [?a]"
    and "socketId ` set (membersOf (registryOf ?r) rid) \<subseteq> insert sid (socketId ` set ?ms)"
    and "filter isApiPost (effectsOf ?r) =
           (if sameUser uid ?ms = [] then [ApiPost (addParticipant rid uid (ud_name ud))] else [])"
    by blast+
qed

lemma run_Nil: "run fetch now [] reg = reg"
  by (simp add: run_def)

lemma run_snoc:
  "run fetch now (evs @ [ev]) reg = registryOf (handle fetch now ev (run fetch now evs reg))"
  by (simp add: run_def)

lemma joinOf_fresh:
  assumes "uid \<noteq> []" and "rid \<noteq> []" and np: "rid \<notin> set objectPrototypeKeys"
    and fresh: "fst j \<notin> socketId ` set (membersOf reg rid)"
    and one: "length (sameUser uid (membersOf reg rid)) \<le> 1"
  shows "sameUser uid (membersOf (registryOf (handle fetch now (joinOf uid rid j) reg)) rid)
           = [memberOfJoin uid j]"
    and "socketId ` set (membersOf (registryOf (handle fetch now (joinOf uid rid j) reg)) rid)
           \<subseteq> insert (fst j) (socketId ` set (membersOf reg rid))"
    and "filter isApiPost (effectsOf (handle fetch now (joinOf uid rid j) reg)) =
           (if sameUser uid (membersOf reg rid) = []
            then [ApiPost (addParticipant rid uid (fst (snd j)))] else [])"
proof -
  obtain sid nm ph where j: "j = (sid, nm, ph)"
    by (cases j) auto
  let ?ud = "\<lparr>ud_userId = Some uid, ud_name = nm, ud_photo = ph, ud_roomId = Some rid\<rparr>"
  have v: "validJoin ?ud uid rid"
    using assms(1,2) by (simp add: validJoin_def)
  have h: "handle fetch now (joinOf uid rid j) reg = newUser fetch sid (Some ?ud) reg"
    by (simp add: joinOf_def j)
  have a: "announced sid uid ?ud = memberOfJoin uid j"
    by (simp add: announced_def memberOfJoin_def j)
  from fresh have f: "sid \<notin> socketId ` set (membersOf reg rid)"
    by (simp add: j)
  from join_fresh [OF v np f one, of fetch]
  show "sameUser uid (membersOf (registryOf (handle fetch now (joinOf uid rid j) reg)) rid)
           = [memberOfJoin uid j]"
    and "socketId ` set (membersOf (registryOf (handle fetch now (joinOf uid rid j) reg)) rid)
           \<subseteq> insert (fst j) (socketId ` set (membersOf reg rid))"
    and "filter isApiPost (effectsOf (handle fetch now (joinOf uid rid j) reg)) =
           (if sameUser uid (membersOf reg rid) = []
            then [ApiPost (addParticipant rid uid (fst (snd j)))] else [])"
    unfolding h a by (simp_all add: j)
qed

lemma joinsOf_invariant:
  assumes u: "uid \<noteq> []" and r: "rid \<noteq> []" and np: "rid \<notin> set objectPrototypeKeys"
    and one: "length (sameUser uid (membersOf reg rid)) \<le> 1"
  shows "js \<noteq> [] \<Longrightarrow> distinct (map fst js) \<Longrightarrow>
         fst ` set js \<inter> socketId ` set (membersOf reg rid) = {} \<Longrightarrow>
         sameUser uid (membersOf (run fetch now (joinsOf uid rid js) reg) rid) = [memberOfJoin uid (last js)] \<and>
         socketId ` set (membersOf (run fetch now (joinsOf uid rid js) reg) rid)
           \<subseteq> fst ` set js \<union> socketId ` set (membersOf reg rid) \<and>
         (\<forall>k. 0 < k \<and> k < length js \<longrightarrow>
            filter isApiPost (effectsOf (handle fetch now (joinsOf uid rid js ! k)
               (run fetch now (take k (joinsOf uid rid js)) reg))) = [])"
proof (induction js rule: rev_nonempty_induct)
  case (single j)
  then have fresh: "fst j \<notin> socketId ` set (membersOf reg rid)"
    by auto
  from joinOf_fresh(1,2) [OF u r np fresh one, of fetch now] show ?case
    by (auto simp: joinsOf_def run_snoc [of fetch now "[]", simplified] run_Nil)
next
  case (snoc j js)
  let ?S0 = "socketId ` set (membersOf reg rid)"
  let ?evs = "joinsOf uid rid js"
  let ?st = "run fetch now ?evs reg"
  from snoc.prems have d: "distinct (map fst js)" and jn: "fst j \<notin> fst ` set js"
    and disj: "fst ` set js \<inter> ?S0 = {}" and j0: "fst j \<notin> ?S0"
    by auto
  from snoc.IH [OF d disj] have
    same: "sameUser uid (membersOf ?st rid) = [memberOfJoin uid (last js)]"
    and socks: "socketId ` set (membersOf ?st rid) \<subseteq> fst ` set js \<union> ?S0"
    and api: "\<forall>k. 0 < k \<and> k < length js \<longrightarrow>
            filter isApiPost (effectsOf (handle fetch now (?evs ! k)
               (run fetch now (take k ?evs) reg))) = []"
    by blast+
  from socks jn j0 have fresh: "fst j \<notin> socketId ` set (membersOf ?st rid)"
    by blast
  from same have one': "length (sameUser uid (membersOf ?st rid)) \<le> 1"
    by simp
  have evs: "joinsOf uid rid (js @ [j]) = ?evs @ [joinOf uid rid j]"
    by (simp add: joinsOf_def)
  have len: "length ?evs = length js"
    by (simp add: joinsOf_def)
  note step = joinOf_fresh [OF u r np fresh one', of fetch now]
  have 1: "sameUser uid (membersOf (run fetch now (joinsOf uid rid (js @ [j])) reg) rid)
             = [memberOfJoin uid (last (js @ [j]))]"
    using step(1) by (simp add: evs run_snoc)
  have 2: "socketId ` set (membersOf (run fetch now (joinsOf uid rid (js @ [j])) reg) rid)
             \<subseteq> fst ` set (js @ [j]) \<union> ?S0"
    using step(2) socks by (auto simp: evs run_snoc)
  have 3: "filter isApiPost (effectsOf (handle fetch now (joinsOf uid rid (js @ [j]) ! k)
               (run fetch now (take k (joinsOf uid rid (js @ [j]))) reg))) = []"
    if k: "0 < k" "k < length (js @ [j])" for k
  proof (cases "k < length js")
    case True
    with api k(1) show ?thesis
      by (simp add: evs len nth_append)
  next
    case False
    with k(2) have "k = length js"
      by simp
    with step(3) same show ?thesis
      by (simp add: evs len nth_append)
  qed
  from 1 2 3 show ?case
    by blast
qed

text \<open>
  Claim C4, as the code has it. Take a room whose id is not empty and is not the name of a
  property of \<open>Object.prototype\<close>, a user id \<open>uid\<close> that is not empty, a registry in which
  that room holds at most one member with user id \<open>uid\<close>, and a non-empty sequence of joins
  of \<open>uid\<close> to that room over pairwise distinct connection ids that are not in the room's
  member list. Afterwards the room has exactly one member with that user id, and it carries
  the connection id, name and photo of the last join. No join after the first makes a
  backend call; the first makes the \<open>add-participant\<close> call exactly when the user was not
  in the room before.
\<close>

theorem reconnects_keep_one_member:
  assumes "uid \<noteq> []" and "rid \<noteq> []" and "rid \<notin> set objectPrototypeKeys"
    and "js \<noteq> []" and "distinct (map fst js)"
    and "fst ` set js \<inter> socketId ` set (membersOf reg rid) = {}"
    and "length (sameUser uid (membersOf reg rid)) \<le> 1"
  shows "sameUser uid (membersOf (run fetch now (joinsOf uid rid js) reg) rid) = [memberOfJoin uid (last js)] \<and>
         (\<forall>k. 0 < k \<and> k < length js \<longrightarrow>
            filter isApiPost (effectsOf (handle fetch now (joinsOf uid rid js ! k)
               (run fetch now (take k (joinsOf uid rid js)) reg))) = []) \<and>
         filter isApiPost (effectsOf (handle fetch now (joinOf uid rid (hd js)) reg)) =
           (if sameUser uid (membersOf reg rid) = []
            then [ApiPost (addParticipant rid uid (fst (snd (hd js))))] else [])"
proof -
  from assms(4,6) have "fst (hd js) \<notin> socketId ` set (membersOf reg rid)"
    by (cases js) auto
  from joinOf_fresh(3) [OF assms(1-3) this assms(7), of fetch now]
    joinsOf_invariant [OF assms(1-3) assms(7) assms(4-6), of fetch now]
  show ?thesis
    by blast
qed

theorem reconnects_keep_one_member_witness:
  "''A'' \<noteq> [] \<and> ''R1'' \<noteq> [] \<and> ''R1'' \<notin> set objectPrototypeKeys \<and> reloads \<noteq> [] \<and>
   distinct (map fst reloads) \<and> fst ` set reloads \<inter> socketId ` set (membersOf [] ''R1'') = {} \<and>
   length (sameUser ''A'' (membersOf [] ''R1'')) \<le> 1 \<and>
   sameUser ''A'' (membersOf (run allOk ''t'' (joinsOf ''A'' ''R1'' reloads) []) ''R1'') =
     [\<lparr>socketId = ''c2'', userId = ''A'', name = Some ''Ann B.'', photo = Some ''ann.png''\<rparr>] \<and>
   filter isApiPost (effectsOf (handle allOk ''t'' (joinsOf ''A'' ''R1'' reloads ! 1)
      (run allOk ''t'' (take 1 (joinsOf ''A'' ''R1'' reloads)) []))) = [] \<and>
   filter isApiPost (effectsOf (handle allOk ''t'' (joinOf ''A'' ''R1'' (hd reloads)) [])) =
     [ApiPost (addParticipant ''R1'' ''A'' (Some ''Ann''))]"
proof -
  have 1: "''A'' \<noteq> []" and 2: "''R1'' \<noteq> []" and 3: "''R1'' \<notin> set objectPrototypeKeys"
    and 4: "reloads \<noteq> []" and 5: "distinct (map fst reloads)"
    and 6: "fst ` set reloads \<inter> socketId ` set (membersOf [] ''R1'') = {}"
    and 7: "length (sameUser ''A'' (membersOf [] ''R1'')) \<le> 1"
    by (simp_all add: objectPrototypeKeys_def reloads_def membersOf_def sameUser_def)
  have 8: "sameUser ''A'' (membersOf [] ''R1'') = []"
    by (simp add: membersOf_def sameUser_def)
  have 9: "memberOfJoin ''A'' (last reloads) =
      \<lparr>socketId = ''c2'', userId = ''A'', name = Some ''Ann B.'', photo = Some ''ann.png''\<rparr>"
    and 10: "fst (snd (hd reloads)) = Some ''Ann''" and 11: "(0::nat) < 1 \<and> 1 < length reloads"
    by (simp_all add: reloads_def memberOfJoin_def)
  from reconnects_keep_one_member [OF 1 2 3 4 5 6 7, of allOk "''t''"] 11
  have "sameUser ''A'' (membersOf (run allOk ''t'' (joinsOf ''A'' ''R1'' reloads) []) ''R1'') =
     [\<lparr>socketId = ''c2'', userId = ''A'', name = Some ''Ann B.'', photo = Some ''ann.png''\<rparr>] \<and>
   filter isApiPost (effectsOf (handle allOk ''t'' (joinsOf ''A'' ''R1'' reloads ! 1)
      (run allOk ''t'' (take 1 (joinsOf ''A'' ''R1'' reloads)) []))) = [] \<and>
   filter isApiPost (effectsOf (handle allOk ''t'' (joinOf ''A'' ''R1'' (hd reloads)) [])) =
     [ApiPost (addParticipant ''R1'' ''A'' (Some ''Ann''))]"
    unfolding 8 9 10 by simp
  with 1 2 3 4 5 6 7 show ?thesis
    by blast
qed

text \<open>The claim as stated fails in a reachable room that already has two members with
  the user id (see \<open>stolenIdentity\<close>): a join over a fresh connection rewrites both, and
  the room keeps two members with that user id.\<close>

theorem reconnects_counterexample:
  "''s3'' \<notin> socketId ` set (membersOf (run allOk ''t'' stolenIdentity []) ''R1'') \<and>
   sameUser ''A'' (membersOf
       (run allOk ''t'' (joinsOf ''A'' ''R1'' [(''s3'', None, None)]) (run allOk ''t'' stolenIdentity []))
       ''R1'') =
     [\<lparr>socketId = ''s3'', userId = ''A'', name = None, photo = None\<rparr>,
      \<lparr>socketId = ''s3'', userId = ''A'', name = None, photo = None\<rparr>]"
  by (simp add: stolenIdentity_run) (simp add: handler_defs joinsOf_def joinOf_def membersOf_def sameUser_def)

end
